theory Spec2Isabelle
  imports Main "HOL-Library.Char_ord" "HOL-Library.List_Lexorder" "HOL-Library.AList"
begin

section \<open>Python values used by simplevc\<close>

text \<open>
  Version strings are Python \<open>str\<close> values; they are compared with Python's own string
  order, which is the lexicographic order on code points (a proper prefix is smaller).
  That is the order \<^theory_text>\<open>HOL-Library.List_Lexorder\<close> puts on \<^typ>\<open>char list\<close> over the
  order of \<^theory_text>\<open>HOL-Library.Char_ord\<close>.

  A Python \<open>dict\<close> is an association list with distinct keys in insertion order:
  \<open>d[k] = v\<close> is \<^const>\<open>AList.update\<close> (overwrite in place, or append), \<open>d[k]\<close> is
  \<^const>\<open>map_of\<close> with \<open>KeyError\<close> for a missing key, \<open>d.keys()\<close> is \<open>map fst\<close>.
  Dictionaries that the code only looks up by key (\<open>helps\<close>, \<open>types\<close>, \<open>defaults\<close>, a
  function's \<open>__dict__\<close>) are maps.
\<close>

datatype error =
    ValueError
  | KeyError
  | IndexError
  | AttributeError
  | ArgumentError
  | PyException string

subsection \<open>Slicing, \<open>str.rindex\<close>, \<open>int\<close>, \<open>str.join\<close>\<close>

definition slice :: "'a list \<Rightarrow> nat \<Rightarrow> nat \<Rightarrow> 'a list" where
  \<comment> \<open>\<open>s[a:b]\<close> for non-negative \<open>a\<close>, \<open>b\<close>; out-of-range bounds are clamped.\<close>
  "slice s a b = take (b - a) (drop a s)"

definition rindex :: "string \<Rightarrow> char \<Rightarrow> error + nat" where
  \<comment> \<open>\<open>s.rindex(c)\<close>: the highest index of \<open>c\<close>, ValueError when \<open>c\<close> does not occur.\<close>
  "rindex s c =
     (if c \<in> set s
      then Inr (length s - 1 - length (takeWhile (\<lambda>x. x \<noteq> c) (rev s)))
      else Inl ValueError)"

definition is_digit :: "char \<Rightarrow> bool" where
  "is_digit c \<longleftrightarrow> CHR ''0'' \<le> c \<and> c \<le> CHR ''9''"

definition digit_val :: "char \<Rightarrow> nat" where
  "digit_val c = of_char c - 48"

definition is_space :: "char \<Rightarrow> bool" where
  \<comment> \<open>the white space that \<open>int\<close> strips, among the code points below 256\<close>
  "is_space c \<longleftrightarrow>
     (of_char c :: nat) \<in> {9, 10, 11, 12, 13, 28, 29, 30, 31, 32, 133, 160}"

definition strip :: "string \<Rightarrow> string" where
  "strip s = rev (dropWhile is_space (rev (dropWhile is_space s)))"

fun digits_value :: "nat \<Rightarrow> string \<Rightarrow> nat option" where
  \<comment> \<open>decimal digits, single underscores allowed between two digits\<close>
  "digits_value acc [] = Some acc"
| "digits_value acc (c # cs) =
     (if is_digit c then digits_value (acc * 10 + digit_val c) cs
      else if c = CHR ''_'' then
        (case cs of
           [] \<Rightarrow> None
         | d # ds \<Rightarrow> if is_digit d then digits_value acc cs else None)
      else None)"

definition py_int :: "string \<Rightarrow> error + int" where
  \<comment> \<open>\<open>int(s)\<close> in base 10: surrounding white space, an optional sign, then digits.\<close>
  "py_int s =
     (let t = strip s;
          neg = (case t of [] \<Rightarrow> False | c # cs \<Rightarrow> c = CHR ''-'');
          body = (case t of [] \<Rightarrow> []
                  | c # cs \<Rightarrow> if c = CHR ''-'' \<or> c = CHR ''+'' then cs else t)
      in case body of
           [] \<Rightarrow> Inl ValueError
         | c # cs \<Rightarrow>
             if is_digit c then
               (case digits_value 0 body of
                  None \<Rightarrow> Inl ValueError
                | Some n \<Rightarrow> Inr (if neg then - int n else int n))
             else Inl ValueError)"

fun join :: "string \<Rightarrow> string list \<Rightarrow> string" where
  "join sep [] = []"
| "join sep [x] = x"
| "join sep (x # y # ys) = x @ sep @ join sep (y # ys)"

section \<open>Version comparison and the resolver\<close>

definition int_compare :: "int \<Rightarrow> int \<Rightarrow> error + int" where
  "int_compare a b =
     (if a < b then Inr (- 1)
      else if a = b then Inr 0
      else if a > b then Inr 1
      else Inl (PyException []))"

fun compare_version_loop ::
  "(nat \<times> nat) list \<Rightarrow> int option \<Rightarrow> string \<Rightarrow> string \<Rightarrow> error + int option" where
  "compare_version_loop [] result v1 v2 = Inr result"
| "compare_version_loop ((r1, r2) # rs) result v1 v2 =
     (case py_int (slice v1 r1 r2) of
        Inl e \<Rightarrow> Inl e
      | Inr a \<Rightarrow>
          (case py_int (slice v2 r1 r2) of
             Inl e \<Rightarrow> Inl e
           | Inr b \<Rightarrow>
               (case int_compare a b of
                  Inl e \<Rightarrow> Inl e
                | Inr r \<Rightarrow>
                    if r \<noteq> 0 then Inr (Some r)
                    else compare_version_loop rs (Some r) v1 v2)))"

definition compare_version :: "string \<Rightarrow> string \<Rightarrow> error + int option" where
  \<comment> \<open>\<open>result\<close> starts as Python's \<open>None\<close>, hence the option.\<close>
  "compare_version v1 v2 = compare_version_loop [(0, 4), (4, 6), (6, 8)] None v1 v2"

definition get_first_available_version :: "'a list \<Rightarrow> error + 'a" where
  "get_first_available_version available_versions =
     (case available_versions of [] \<Rightarrow> Inl IndexError | x # _ \<Rightarrow> Inr x)"

text \<open>
  \<open>bisect.bisect_right(a, x)\<close> with its defaults \<open>lo = 0\<close>, \<open>hi = len(a)\<close>: the loop
  \<^verbatim>\<open>while lo < hi: mid = (lo + hi) // 2; if x < a[mid]: hi = mid else: lo = mid + 1\<close>.
  Every index read is \<open>mid < hi \<le> len(a)\<close>.
\<close>

function bisect_right_loop :: "'a::linorder list \<Rightarrow> 'a \<Rightarrow> nat \<Rightarrow> nat \<Rightarrow> nat" where
  "bisect_right_loop a x lo hi =
     (if lo < hi
      then (if x < a ! ((lo + hi) div 2)
            then bisect_right_loop a x lo ((lo + hi) div 2)
            else bisect_right_loop a x ((lo + hi) div 2 + 1) hi)
      else lo)"
  by pat_completeness auto
termination
  by (relation "measure (\<lambda>(a, x, lo, hi). hi - lo)") auto

declare bisect_right_loop.simps [simp del]

definition bisect_right :: "'a::linorder list \<Rightarrow> 'a \<Rightarrow> nat" where
  "bisect_right a x = bisect_right_loop a x 0 (length a)"

definition get_last_version :: "'a::linorder list \<Rightarrow> 'a \<Rightarrow> 'a option" where
  \<comment> \<open>\<open>None\<close> is Python's \<open>None\<close>; \<open>idx\<close> is an integer, it can be \<open>-1\<close>.\<close>
  "get_last_version available_versions version =
     (let idx = int (bisect_right available_versions version) - 1
      in if idx < 0 then None else Some (available_versions ! nat idx))"

section \<open>Function objects, dispatch wrappers and the module\<close>

text \<open>
  \<open>'v\<close> is the type of Python values (arguments, results, default values), \<open>'c\<close> the
  code of a function. A parameter's \<open>default\<close> and \<open>annotation\<close> are \<open>None\<close> where
  \<open>inspect\<close> reports \<open>inspect._empty\<close>.
\<close>

datatype pytype = TypeObj string | GenericAlias pytype "pytype list"

record 'v param =
  p_name :: string
  p_default :: "'v option"
  p_annotation :: "pytype option"

record ('v, 'c) pyfunc =
  fn_module :: string
  fn_name :: string
  fn_qualname :: string
  fn_annotations :: "(string \<times> pytype) list"
  fn_doc :: "string option"
  fn_dict :: "string \<rightharpoonup> 'v"
  fn_signature :: "'v param list"
  fn_code :: 'c

text \<open>
  The wrapper \<open>_run_method\<close> that \<open>_module_vc\<close> installs under the base name: the
  attributes that \<open>functools.update_wrapper\<close> and \<open>_update_module_vc\<close> write.
  \<open>__wrapped__\<close> is kept apart from the rest of \<open>__dict__\<close>.
\<close>

record ('v, 'c) wrapper =
  w_module :: string
  w_name :: string
  w_qualname :: string
  w_annotations :: "(string \<times> pytype) list"
  w_doc :: "string option"
  w_dict :: "string \<rightharpoonup> 'v"
  w_wrapped :: "('v, 'c) pyfunc option"

text \<open>The tuple stored by \<open>_module_vt\<close> for one version of a tool.\<close>

record ('v, 'c) tool =
  t_signature :: "'v param list"
  t_description :: "string option"
  t_helps :: "string \<rightharpoonup> string"
  t_types :: "string \<rightharpoonup> pytype"
  t_defaults :: "string \<rightharpoonup> 'v"
  t_return_routine :: "(('v, 'c) pyfunc \<times> string list) option"

text \<open>
  The registered module: the attributes that \<open>register\<close> sets, and \<open>m_attrs\<close>, the
  wrappers that \<open>setattr(module, function_name, _run_method)\<close> installs, by base name.
  Python keeps all of them in one attribute namespace; a base name that equals
  \<open>_version\<close>, \<open>_method_dicts\<close>, \<open>_tool_dicts\<close> or another attribute of the module is
  not covered by this record.
\<close>

record ('v, 'c) module =
  m_version :: string
  m_method_dicts :: "(string \<times> (string \<times> ('v, 'c) pyfunc) list) list"
  m_tool_dicts :: "(string \<times> (string \<times> ('v, 'c) tool) list) list"
  m_module_display_version :: "string option"
  m_attrs :: "(string \<times> ('v, 'c) wrapper) list"

definition update_wrapper ::
  "('v, 'c) wrapper \<Rightarrow> ('v, 'c) pyfunc \<Rightarrow> ('v, 'c) wrapper" where
  \<comment> \<open>\<open>functools.update_wrapper(wrapper, wrapped)\<close> with the default attribute lists\<close>
  "update_wrapper wrapper wrapped =
     wrapper\<lparr>w_module := fn_module wrapped,
             w_name := fn_name wrapped,
             w_qualname := fn_qualname wrapped,
             w_annotations := fn_annotations wrapped,
             w_doc := fn_doc wrapped,
             w_dict := w_dict wrapper ++ fn_dict wrapped,
             w_wrapped := Some wrapped\<rparr>"

definition unavailable_doc :: "string \<Rightarrow> string \<Rightarrow> string \<Rightarrow> string" where
  \<comment> \<open>the f-string of \<open>_update_module_vc\<close>: a line break and two tabs after the first sentence\<close>
  "unavailable_doc function_name version first =
     ''The method '' @ function_name @ '' is not available at version '' @ version @ ''.''
     @ [CHR 0x0A, CHR 0x09, CHR 0x09]
     @ ''The first available version is '' @ first @ ''.''"

definition unavailable_message :: "string \<Rightarrow> string \<Rightarrow> string \<Rightarrow> string" where
  \<comment> \<open>the f-string of \<open>_run_method\<close>: a blank and a line break after the first sentence\<close>
  "unavailable_message function_name version first =
     ''The method '' @ function_name @ '' is not available at version '' @ version @ ''. ''
     @ [CHR 0x0A]
     @ ''The first available version is '' @ first @ ''.''"

definition update_module_vc ::
  "('v, 'c) module \<Rightarrow> string \<Rightarrow> string \<Rightarrow> error + ('v, 'c) module" where
  "update_module_vc module function_name version =
     (case map_of (m_method_dicts module) function_name of
        None \<Rightarrow> Inl KeyError
      | Some method_dict \<Rightarrow>
          (case map_of (m_attrs module) function_name of
             None \<Rightarrow> Inl AttributeError
           | Some wrapper \<Rightarrow>
               (case (case get_last_version (sort (map fst method_dict)) version of
                        Some function_version \<Rightarrow>
                          (case map_of method_dict function_version of
                             None \<Rightarrow> Inl KeyError
                           | Some f \<Rightarrow> Inr (update_wrapper wrapper f))
                      | None \<Rightarrow>
                          (case get_first_available_version (sort (map fst method_dict)) of
                             Inl e \<Rightarrow> Inl e
                           | Inr first \<Rightarrow>
                               Inr (wrapper\<lparr>w_doc :=
                                      Some (unavailable_doc function_name version first)\<rparr>))) of
                  Inl e \<Rightarrow> Inl e
                | Inr w \<Rightarrow>
                    Inr (module\<lparr>m_attrs :=
                           AList.update function_name
                             (w\<lparr>w_name := function_name, w_qualname := function_name\<rparr>)
                             (m_attrs module)\<rparr>))))"

fun update_all ::
  "('v, 'c) module \<Rightarrow> string list \<Rightarrow> string \<Rightarrow> error + ('v, 'c) module" where
  \<comment> \<open>the \<open>for function_name in module._method_dicts.keys()\<close> loop\<close>
  "update_all module [] version = Inr module"
| "update_all module (function_name # rest) version =
     (case update_module_vc module function_name version of
        Inl e \<Rightarrow> Inl e
      | Inr module' \<Rightarrow> update_all module' rest version)"

definition set_module_version ::
  "('v, 'c) module \<Rightarrow> string \<Rightarrow> error + ('v, 'c) module" where
  "set_module_version module version =
     update_all (module\<lparr>m_version := version\<rparr>) (map fst (m_method_dicts module)) version"


definition set_version :: "('v, 'c) module \<Rightarrow> string \<Rightarrow> error + ('v, 'c) module" where
  \<comment> \<open>the closure that \<open>register\<close> installs as \<open>module.set_version\<close>\<close>
  "set_version module version = set_module_version module version"


definition fresh_run_method :: "('v, 'c) wrapper" where
  \<comment> \<open>the function object \<open>_run_method\<close> as \<open>def\<close> creates it\<close>
  "fresh_run_method =
     \<lparr>w_module = ''simplevc.simplevc'', w_name = ''_run_method'',
      w_qualname = ''_module_vc.<locals>._run_method'', w_annotations = [],
      w_doc = None, w_dict = Map.empty, w_wrapped = None\<rparr>"

definition module_vc ::
  "('v, 'c) module \<Rightarrow> ('v, 'c) pyfunc \<Rightarrow> error + ('v, 'c) module" where
  \<comment> \<open>\<open>_module_vc\<close>; the decorator's return value is \<open>func\<close> itself\<close>
  "module_vc module func =
     (case rindex (fn_name func) CHR ''_'' of
        Inl e \<Rightarrow> Inl e
      | Inr r \<Rightarrow>
          (let function_name = slice (fn_name func) 1 r;
               version = drop (r + 1) (fn_name func);
               module1 =
                 (if map_of (m_method_dicts module) function_name = None
                  then module\<lparr>m_method_dicts :=
                         AList.update function_name [] (m_method_dicts module)\<rparr>
                  else module)
           in case map_of (m_method_dicts module1) function_name of
                None \<Rightarrow> Inl KeyError
              | Some method_dict \<Rightarrow>
                  (let module2 = module1\<lparr>m_method_dicts :=
                         AList.update function_name (AList.update version func method_dict)
                           (m_method_dicts module1)\<rparr>;
                       module3 = module2\<lparr>m_attrs :=
                         AList.update function_name (update_wrapper fresh_run_method func)
                           (m_attrs module2)\<rparr>
                   in update_module_vc module3 function_name (m_version module3))))"

text \<open>
  \<open>_run_method\<close>, the dispatch proxy. Its closure variables \<open>function_name\<close> and
  \<open>method_dict\<close> (the dictionary object \<open>module._method_dicts[function_name]\<close>) are
  parameters. \<open>call\<close> runs an implementation on the positional and keyword arguments in
  a module state and gives its result (or the exception it raises) and the module state
  it leaves. \<open>version\<close> is \<open>None\<close> when the keyword is omitted.
\<close>

definition run_method ::
  "(('v, 'c) pyfunc \<Rightarrow> 'v list \<Rightarrow> (string \<times> 'v) list \<Rightarrow> ('v, 'c) module
      \<Rightarrow> (error + 'r) \<times> ('v, 'c) module)
   \<Rightarrow> string \<Rightarrow> (string \<times> ('v, 'c) pyfunc) list \<Rightarrow> ('v, 'c) module
   \<Rightarrow> 'v list \<Rightarrow> string option \<Rightarrow> (string \<times> 'v) list
   \<Rightarrow> (error + 'r) \<times> ('v, 'c) module" where
  "run_method call function_name method_dict module args version kwargs =
     (let version = (case version of None \<Rightarrow> m_version module | Some v \<Rightarrow> v)
      in case get_last_version (sort (map fst method_dict)) version of
           None \<Rightarrow>
             (case get_first_available_version (sort (map fst method_dict)) of
                Inl e \<Rightarrow> (Inl e, module)
              | Inr first \<Rightarrow>
                  (Inl (PyException (unavailable_message function_name version first)),
                   module))
         | Some rversion \<Rightarrow>
             (case map_of method_dict rversion of
                None \<Rightarrow> (Inl KeyError, module)
              | Some f \<Rightarrow> call f args kwargs module))"

definition module_vt ::
  "('v, 'c) module \<Rightarrow> string option \<Rightarrow> (string \<rightharpoonup> string) \<Rightarrow> (string \<rightharpoonup> pytype)
   \<Rightarrow> (string \<rightharpoonup> 'v) \<Rightarrow> (('v, 'c) pyfunc \<times> string list) option
   \<Rightarrow> ('v, 'c) pyfunc \<Rightarrow> error + ('v, 'c) module" where
  \<comment> \<open>\<open>_module_vt(module, description=..., ...)(func)\<close>\<close>
  "module_vt module description helps types defaults return_routine func =
     (case rindex (fn_name func) CHR ''_'' of
        Inl e \<Rightarrow> Inl e
      | Inr r \<Rightarrow>
          (let function_name = slice (fn_name func) 1 r;
               version = drop (r + 1) (fn_name func);
               module1 =
                 (if map_of (m_tool_dicts module) function_name = None
                  then module\<lparr>m_tool_dicts :=
                         AList.update function_name [] (m_tool_dicts module)\<rparr>
                  else module)
           in case map_of (m_tool_dicts module1) function_name of
                None \<Rightarrow> Inl KeyError
              | Some tool_dict \<Rightarrow>
                  Inr (module1\<lparr>m_tool_dicts :=
                         AList.update function_name
                           (AList.update version
                              \<lparr>t_signature = fn_signature func, t_description = description,
                               t_helps = helps, t_types = types, t_defaults = defaults,
                               t_return_routine = return_routine\<rparr>
                              tool_dict)
                           (m_tool_dicts module1)\<rparr>)))"

definition register ::
  "string \<Rightarrow> ('v, 'c) module \<Rightarrow> string option \<Rightarrow> error + ('v, 'c) module" where
  \<comment> \<open>\<open>register(module, module_display_version)\<close>; the first argument is the global
      \<open>_default_version\<close>\<close>
  "register default_version module module_display_version =
     (case set_module_version
             (module\<lparr>m_method_dicts := [], m_tool_dicts := []\<rparr>) default_version of
        Inl e \<Rightarrow> Inl e
      | Inr module' \<Rightarrow> Inr (module'\<lparr>m_module_display_version := module_display_version\<rparr>))"

section \<open>The command-line surface\<close>

text \<open>
  What \<open>module_main\<close> hands to \<open>argparse\<close>. The keyword dictionary of one
  \<open>add_argument\<close> call is a record; \<open>kw_default\<close>, \<open>kw_type\<close> and \<open>kw_nargs\<close> are \<open>None\<close>
  where the key is absent. A subparser starts with the option strings \<open>-h\<close> and
  \<open>--help\<close> that \<open>argparse\<close> adds itself, and \<open>add_argument\<close> raises
  \<open>ArgumentError\<close> on an option string that the subparser already has.
\<close>

record 'v kwargs =
  kw_help :: string
  kw_default :: "'v option"
  kw_required :: bool
  kw_type :: "pytype option"
  kw_nargs :: "string option"

record 'v subparser =
  sp_name :: string
  sp_help :: string
  sp_description :: "string option"
  sp_arguments :: "(string \<times> 'v kwargs) list"

record ('v, 'c) grammar =
  g_description :: string
  g_subparsers :: "'v subparser list"
  g_return_routines :: "(string \<times> (('v, 'c) pyfunc \<times> string list)) list"

definition add_argument ::
  "'v subparser \<Rightarrow> string \<Rightarrow> 'v kwargs \<Rightarrow> error + 'v subparser" where
  "add_argument parser flag kw =
     (if flag \<in> set (''-h'' # ''--help'' # map fst (sp_arguments parser))
      then Inl ArgumentError
      else Inr (parser\<lparr>sp_arguments := sp_arguments parser @ [(flag, kw)]\<rparr>))"

definition annotation_type :: "pytype \<Rightarrow> error + (pytype \<times> string option)" where
  \<comment> \<open>the \<open>elif param.annotation != inspect._empty\<close> branch: the type and \<open>nargs\<close>\<close>
  "annotation_type ann =
     (case ann of
        GenericAlias origin args \<Rightarrow>
          if origin \<noteq> TypeObj ''list''
          then Inl (PyException ''Only list is supported in GenericAlias'')
          else (case args of [] \<Rightarrow> Inl IndexError | a # _ \<Rightarrow> Inr (a, Some ''*''))
      | TypeObj n \<Rightarrow> Inr (TypeObj n, None))"

definition main_param_kwargs ::
  "(string \<rightharpoonup> string) \<Rightarrow> (string \<rightharpoonup> pytype) \<Rightarrow> (string \<rightharpoonup> 'v) \<Rightarrow> 'v param
   \<Rightarrow> error + 'v kwargs" where
  \<comment> \<open>\<open>module_main\<close>: the body of \<open>for param in signature.parameters.values()\<close>\<close>
  "main_param_kwargs helps types defaults param =
     (let kw0 = \<lparr>kw_help = (case helps (p_name param) of Some h \<Rightarrow> h | None \<Rightarrow> ''_''),
                 kw_default = None, kw_required = True, kw_type = None, kw_nargs = None\<rparr>;
          kw1 =
            (case defaults (p_name param) of
               Some d \<Rightarrow> kw0\<lparr>kw_default := Some d, kw_required := False\<rparr>
             | None \<Rightarrow>
                 (case p_default param of
                    Some d \<Rightarrow> kw0\<lparr>kw_default := Some d, kw_required := False\<rparr>
                  | None \<Rightarrow> kw0\<lparr>kw_required := True\<rparr>))
      in case types (p_name param) of
           Some t \<Rightarrow> Inr (kw1\<lparr>kw_type := Some t\<rparr>)
         | None \<Rightarrow>
             (case p_annotation param of
                None \<Rightarrow> Inr kw1
              | Some ann \<Rightarrow>
                  (case annotation_type ann of
                     Inl e \<Rightarrow> Inl e
                   | Inr (t, nargs) \<Rightarrow> Inr (kw1\<lparr>kw_type := Some t, kw_nargs := nargs\<rparr>))))"

fun add_signature_params ::
  "(string \<rightharpoonup> string) \<Rightarrow> (string \<rightharpoonup> pytype) \<Rightarrow> (string \<rightharpoonup> 'v) \<Rightarrow> 'v param list
   \<Rightarrow> 'v subparser \<Rightarrow> error + 'v subparser" where
  "add_signature_params helps types defaults [] parser = Inr parser"
| "add_signature_params helps types defaults (param # params) parser =
     (case main_param_kwargs helps types defaults param of
        Inl e \<Rightarrow> Inl e
      | Inr kw \<Rightarrow>
          (case add_argument parser (''-'' @ p_name param) kw of
             Inl e \<Rightarrow> Inl e
           | Inr parser' \<Rightarrow> add_signature_params helps types defaults params parser'))"

definition return_param_kwargs ::
  "(string \<rightharpoonup> string) \<Rightarrow> (string \<rightharpoonup> pytype) \<Rightarrow> (string \<rightharpoonup> 'v) \<Rightarrow> string
   \<Rightarrow> error + 'v kwargs" where
  \<comment> \<open>\<open>module_main\<close>: the body of \<open>for param_name in return_params\<close>\<close>
  "return_param_kwargs helps types defaults param_name =
     (let kw0 = \<lparr>kw_help = (case helps param_name of Some h \<Rightarrow> h | None \<Rightarrow> ''_''),
                 kw_default = None, kw_required = True, kw_type = None, kw_nargs = None\<rparr>
      in case types param_name of
           None \<Rightarrow> Inl (PyException [])
         | Some t \<Rightarrow>
             (case defaults param_name of
                Some d \<Rightarrow>
                  Inr (kw0\<lparr>kw_type := Some t, kw_default := Some d, kw_required := False\<rparr>)
              | None \<Rightarrow> Inr (kw0\<lparr>kw_type := Some t, kw_required := True\<rparr>)))"

fun add_return_params ::
  "(string \<rightharpoonup> string) \<Rightarrow> (string \<rightharpoonup> pytype) \<Rightarrow> (string \<rightharpoonup> 'v) \<Rightarrow> string list
   \<Rightarrow> 'v subparser \<Rightarrow> error + 'v subparser" where
  "add_return_params helps types defaults [] parser = Inr parser"
| "add_return_params helps types defaults (param_name # rest) parser =
     (case return_param_kwargs helps types defaults param_name of
        Inl e \<Rightarrow> Inl e
      | Inr kw \<Rightarrow>
          (case add_argument parser (''-'' @ param_name) kw of
             Inl e \<Rightarrow> Inl e
           | Inr parser' \<Rightarrow> add_return_params helps types defaults rest parser'))"

definition build_tool ::
  "string \<Rightarrow> string \<Rightarrow> (string \<times> ('v, 'c) tool) list
   \<Rightarrow> 'v subparser list \<times> (string \<times> (('v, 'c) pyfunc \<times> string list)) list
   \<Rightarrow> error + 'v subparser list \<times> (string \<times> (('v, 'c) pyfunc \<times> string list)) list" where
  \<comment> \<open>\<open>module_main\<close>: one round of \<open>for func_name, tool_dict in module._tool_dicts.items()\<close>;
      \<open>continue\<close> leaves the subparsers and \<open>_return_routines\<close> as they are\<close>
  "build_tool version func_name tool_dict acc =
     (case get_last_version (sort (map fst tool_dict)) version of
        None \<Rightarrow> Inr acc
      | Some rversion \<Rightarrow>
          (case map_of tool_dict rversion of
             None \<Rightarrow> Inl KeyError
           | Some tool \<Rightarrow>
               (case add_signature_params (t_helps tool) (t_types tool) (t_defaults tool)
                       (t_signature tool)
                       \<lparr>sp_name = func_name, sp_help = ''version-'' @ rversion,
                        sp_description = t_description tool, sp_arguments = []\<rparr> of
                  Inl e \<Rightarrow> Inl e
                | Inr parser \<Rightarrow>
                    (case t_return_routine tool of
                       None \<Rightarrow> Inr (fst acc @ [parser], snd acc)
                     | Some return_routine \<Rightarrow>
                         (case add_return_params (t_helps tool) (t_types tool)
                                 (t_defaults tool) (snd return_routine) parser of
                            Inl e \<Rightarrow> Inl e
                          | Inr parser' \<Rightarrow>
                              Inr (fst acc @ [parser'],
                                   AList.update func_name return_routine (snd acc)))))))"

fun build_tools ::
  "string \<Rightarrow> (string \<times> (string \<times> ('v, 'c) tool) list) list
   \<Rightarrow> 'v subparser list \<times> (string \<times> (('v, 'c) pyfunc \<times> string list)) list
   \<Rightarrow> error + 'v subparser list \<times> (string \<times> (('v, 'c) pyfunc \<times> string list)) list" where
  "build_tools version [] acc = Inr acc"
| "build_tools version ((func_name, tool_dict) # rest) acc =
     (case build_tool version func_name tool_dict acc of
        Inl e \<Rightarrow> Inl e
      | Inr acc' \<Rightarrow> build_tools version rest acc')"

definition module_main_build :: "('v, 'c) module \<Rightarrow> error + ('v, 'c) grammar" where
  \<comment> \<open>\<open>module_main\<close> from \<open>_parser = argparse.ArgumentParser(...)\<close> to the end of the
      loop over \<open>module._tool_dicts\<close>: the parser that \<open>parse_args\<close> then runs\<close>
  "module_main_build module =
     (case build_tools (m_version module) (m_tool_dicts module) ([], []) of
        Inl e \<Rightarrow> Inl e
      | Inr acc \<Rightarrow>
          Inr \<lparr>g_description =
                 (case m_module_display_version module of
                    Some d \<Rightarrow> ''version-'' @ d
                  | None \<Rightarrow> []),
               g_subparsers = fst acc, g_return_routines = snd acc\<rparr>)"

function module_main_args ::
  "('v, 'c) module \<Rightarrow> string list \<Rightarrow> nat \<Rightarrow> bool \<Rightarrow> error + ('v, 'c) module \<times> nat \<times> bool" where
  \<comment> \<open>\<open>module_main\<close>: the \<open>while i < len(sys.argv)\<close> loop over the leading \<open>-v\<close>, \<open>-h\<close>\<close>
  "module_main_args module argv i display_help =
     (if i < length argv then
        (if argv ! i = ''-v'' then
           (if i + 1 < length argv then
              (case set_version module (argv ! (i + 1)) of
                 Inl e \<Rightarrow> Inl e
               | Inr module' \<Rightarrow> module_main_args module' argv (i + 2) display_help)
            else Inl IndexError)
         else if argv ! i = ''-h'' then module_main_args module argv (i + 1) True
         else Inr (module, i, display_help))
      else Inr (module, i, display_help))"
  by pat_completeness auto
termination
  by (relation "measure (\<lambda>(module, argv, i, display_help). length argv - i)") auto

declare module_main_args.simps [simp del]

definition module_main_surface ::
  "('v, 'c) module \<Rightarrow> string list \<Rightarrow> error + ('v, 'c) module \<times> bool \<times> ('v, 'c) grammar" where
  \<comment> \<open>\<open>module_main\<close> up to the built parser: the module after the \<open>-v\<close> flags, whether
      help is displayed, and the grammar\<close>
  "module_main_surface module argv =
     (case module_main_args module argv 1 False of
        Inl e \<Rightarrow> Inl e
      | Inr (module', i, display_help) \<Rightarrow>
          (case module_main_build module' of
             Inl e \<Rightarrow> Inl e
           | Inr g \<Rightarrow> Inr (module', display_help \<or> i = length argv, g)))"

subsection \<open>The tool manual\<close>

definition manual_param_kwargs ::
  "(string \<rightharpoonup> string) \<Rightarrow> (string \<rightharpoonup> pytype) \<Rightarrow> (string \<rightharpoonup> 'v) \<Rightarrow> 'v param
   \<Rightarrow> error + 'v kwargs" where
  \<comment> \<open>\<open>generate_tool_manual\<close>: the body of \<open>for param in signature.parameters.values()\<close>
      up to the line it appends\<close>
  "manual_param_kwargs helps types defaults param =
     (let kw0 = \<lparr>kw_help = (case helps (p_name param) of Some h \<Rightarrow> h | None \<Rightarrow> ''_''),
                 kw_default = None, kw_required = True, kw_type = None, kw_nargs = None\<rparr>;
          kw1 =
            (case defaults (p_name param) of
               Some d \<Rightarrow> kw0\<lparr>kw_default := Some d, kw_required := False\<rparr>
             | None \<Rightarrow>
                 (case p_default param of
                    Some d \<Rightarrow> kw0\<lparr>kw_default := Some d, kw_required := False\<rparr>
                  | None \<Rightarrow> kw0\<lparr>kw_required := True\<rparr>))
      in case types (p_name param) of
           Some t \<Rightarrow> Inr (kw1\<lparr>kw_type := Some t\<rparr>)
         | None \<Rightarrow>
             (case p_annotation param of
                None \<Rightarrow> Inr kw1
              | Some ann \<Rightarrow>
                  (case annotation_type ann of
                     Inl e \<Rightarrow> Inl e
                   | Inr (t, nargs) \<Rightarrow> Inr (kw1\<lparr>kw_type := Some t, kw_nargs := nargs\<rparr>))))"

definition manual_param_line :: "('v \<Rightarrow> string) \<Rightarrow> string \<Rightarrow> 'v kwargs \<Rightarrow> string" where
  \<comment> \<open>the f-string appended for one parameter; \<open>str_of\<close> is Python's \<open>str\<close>\<close>
  "manual_param_line str_of name kw =
     ''- **-'' @ name @ ''**: ''
     @ (if \<not> kw_required kw then ''[optional] '' else [])
     @ kw_help kw
     @ (case kw_default kw of
          Some d \<Rightarrow> '' [default: '' @ str_of d @ '']''
        | None \<Rightarrow> [])"

fun manual_params ::
  "('v \<Rightarrow> string) \<Rightarrow> (string \<rightharpoonup> string) \<Rightarrow> (string \<rightharpoonup> pytype) \<Rightarrow> (string \<rightharpoonup> 'v)
   \<Rightarrow> 'v param list \<Rightarrow> string list \<Rightarrow> error + string list" where
  "manual_params str_of helps types defaults [] lines = Inr lines"
| "manual_params str_of helps types defaults (param # params) lines =
     (case manual_param_kwargs helps types defaults param of
        Inl e \<Rightarrow> Inl e
      | Inr kw \<Rightarrow>
          manual_params str_of helps types defaults params
            (lines @ [manual_param_line str_of (p_name param) kw]))"

fun manual_tools ::
  "('v \<Rightarrow> string) \<Rightarrow> string \<Rightarrow> (string \<times> (string \<times> ('v, 'c) tool) list) list
   \<Rightarrow> string list \<Rightarrow> error + string list" where
  "manual_tools str_of version [] lines = Inr lines"
| "manual_tools str_of version ((func_name, tool_dict) # rest) lines =
     (case get_last_version (sort (map fst tool_dict)) version of
        None \<Rightarrow> manual_tools str_of version rest lines
      | Some rversion \<Rightarrow>
          (case map_of tool_dict rversion of
             None \<Rightarrow> Inl KeyError
           | Some tool \<Rightarrow>
               (case manual_params str_of (t_helps tool) (t_types tool) (t_defaults tool)
                       (t_signature tool)
                       (lines @ [''### '' @ func_name, ''*version: '' @ rversion @ ''*'',
                                 (case t_description tool of Some d \<Rightarrow> d | None \<Rightarrow> []),
                                 ''#### Parameters'']) of
                  Inl e \<Rightarrow> Inl e
                | Inr lines' \<Rightarrow> manual_tools str_of version rest lines')))"

definition generate_tool_manual ::
  "('v \<Rightarrow> string) \<Rightarrow> ('v, 'c) module \<Rightarrow> string option \<Rightarrow> error + string" where
  "generate_tool_manual str_of module version =
     (case manual_tools str_of
             (case version of Some root_version \<Rightarrow> root_version | None \<Rightarrow> m_version module)
             (m_tool_dicts module) [''## All tools''] of
        Inl e \<Rightarrow> Inl e
      | Inr lines \<Rightarrow> Inr (join [CHR 0x0A] lines))"

section \<open>The example module \<open>example/pm.py\<close>\<close>

text \<open>
  The function object that a top-level \<open>def\<close> creates. In the example module Python
  values are strings and the code of a function is a number.
\<close>

definition def_function ::
  "string \<Rightarrow> string \<Rightarrow> string option \<Rightarrow> 'v param list \<Rightarrow> 'c \<Rightarrow> ('v, 'c) pyfunc" where
  "def_function modname name doc params code =
     \<lparr>fn_module = modname, fn_name = name, fn_qualname = name,
      fn_annotations =
        concat (map (\<lambda>p. case p_annotation p of None \<Rightarrow> [] | Some a \<Rightarrow> [(p_name p, a)])
                  params),
      fn_doc = doc, fn_dict = Map.empty, fn_signature = params, fn_code = code\<rparr>"

definition plain_param :: "string \<Rightarrow> 'v param" where
  "plain_param name = \<lparr>p_name = name, p_default = None, p_annotation = None\<rparr>"

definition str_param :: "string \<Rightarrow> 'v param" where
  "str_param name =
     \<lparr>p_name = name, p_default = None, p_annotation = Some (TypeObj ''str'')\<rparr>"

definition docstring :: "string \<Rightarrow> string option" where
  "docstring name =
     Some ([CHR 0x0A, CHR 0x09] @ ''This is the docstring for method '' @ name
           @ [CHR 0x0A, CHR 0x09])"

definition some_method_20200601 :: "(string, nat) pyfunc" where
  "some_method_20200601 =
     def_function ''example.pm'' ''_some_method_20200601''
       (docstring ''_some_method_20200601'')
       [plain_param ''a'', plain_param ''b'', plain_param ''c''] 1"

definition some_method_20200721 :: "(string, nat) pyfunc" where
  "some_method_20200721 =
     def_function ''example.pm'' ''_some_method_20200721''
       (docstring ''_some_method_20200721'')
       [plain_param ''a'', plain_param ''b'', plain_param ''c'', plain_param ''d''] 2"

definition other_method_20200801 :: "(string, nat) pyfunc" where
  "other_method_20200801 =
     def_function ''example.pm'' ''_other_method_20200801''
       (docstring ''_other_method_20200801'')
       [plain_param ''a'', plain_param ''b'', plain_param ''c'', plain_param ''d''] 3"

definition copy_file_20200701 :: "(string, nat) pyfunc" where
  "copy_file_20200701 =
     def_function ''example.pm'' ''_copy_file_20200701''
       (Some ([CHR 0x0A, CHR 0x09] @ ''This is the docstring for method _copy_file_20200701''
              @ [CHR 0x0A, CHR 0x09, CHR 0x0A, CHR 0x09] @ ''Copy srcfile to dstfile.''
              @ [CHR 0x0A, CHR 0x09]))
       [str_param ''srcfile'', str_param ''dstfile''] 4"

definition blank_module :: "(string, nat) module" where
  \<comment> \<open>the module object before \<open>simplevc.register\<close> has run\<close>
  "blank_module =
     \<lparr>m_version = [], m_method_dicts = [], m_tool_dicts = [],
      m_module_display_version = None, m_attrs = []\<rparr>"

definition and_then :: "error + 'a \<Rightarrow> ('a \<Rightarrow> error + 'b) \<Rightarrow> error + 'b" where
  \<comment> \<open>statements in sequence: an exception ends the sequence\<close>
  "and_then r f = (case r of Inl e \<Rightarrow> Inl e | Inr x \<Rightarrow> f x)"

definition pm_import :: "string \<Rightarrow> error + (string, nat) module" where
  \<comment> \<open>importing \<open>example/pm.py\<close> when the global default version is \<open>default_version\<close>\<close>
  "pm_import default_version =
     and_then (register default_version blank_module None) (\<lambda>m.
     and_then (module_vc m some_method_20200601) (\<lambda>m.
     and_then (module_vc m some_method_20200721) (\<lambda>m.
     and_then (module_vc m other_method_20200801) (\<lambda>m.
     and_then (module_vc m copy_file_20200701) (\<lambda>m.
       module_vt m (Some ''File copy method'')
         [''srcfile'' \<mapsto> ''Input source file'', ''dstfile'' \<mapsto> ''Output source file'']
         Map.empty Map.empty None copy_file_20200701)))))"

definition some_method_dict :: "(string \<times> (string, nat) pyfunc) list" where
  \<comment> \<open>\<open>module._method_dicts["some_method"]\<close> after the import\<close>
  "some_method_dict =
     [(''20200601'', some_method_20200601), (''20200721'', some_method_20200721)]"

definition recording_call ::
  "('v, 'c) pyfunc \<Rightarrow> 'v list \<Rightarrow> (string \<times> 'v) list \<Rightarrow> ('v, 'c) module
   \<Rightarrow> (error + (('v, 'c) pyfunc \<times> 'v list \<times> (string \<times> 'v) list)) \<times> ('v, 'c) module" where
  \<comment> \<open>implementations that return which function was called on which arguments\<close>
  "recording_call f args kwargs module = (Inr (f, args, kwargs), module)"

definition copy_file_tool :: "(string, nat) tool" where
  \<comment> \<open>the tuple that \<open>@vt(description=..., helps=...)\<close> stores for \<open>_copy_file_20200701\<close>\<close>
  "copy_file_tool =
     \<lparr>t_signature = fn_signature copy_file_20200701,
      t_description = Some ''File copy method'',
      t_helps = [''srcfile'' \<mapsto> ''Input source file'', ''dstfile'' \<mapsto> ''Output source file''],
      t_types = Map.empty, t_defaults = Map.empty, t_return_routine = None\<rparr>"

definition applicable :: "string \<Rightarrow> string \<times> (string \<times> ('v, 'c) tool) list \<Rightarrow> bool" where
  \<comment> \<open>the resolver finds a version of the tool at or before \<open>version\<close>\<close>
  "applicable version entry \<longleftrightarrow>
     get_last_version (sort (map fst (snd entry))) version \<noteq> None"

definition pm_module :: "(string, nat) module" where
  \<comment> \<open>the example module, imported on 1 December 2020\<close>
  "pm_module = (case pm_import ''20201201'' of Inr m \<Rightarrow> m | Inl e \<Rightarrow> blank_module)"


section \<open>Registered modules\<close>

text \<open>
  The module states that the interface of \<open>register\<close> reaches: \<open>simplevc.register\<close>,
  then the decorators \<open>vc\<close> and \<open>vt\<close> and \<open>set_version\<close>, in any order.
\<close>

inductive registered_module :: "('v, 'c) module \<Rightarrow> bool" where
  by_register:
    "register default_version module0 module_display_version = Inr m
     \<Longrightarrow> registered_module m"
| by_vc:
    "registered_module m \<Longrightarrow> module_vc m func = Inr m' \<Longrightarrow> registered_module m'"
| by_vt:
    "registered_module m
     \<Longrightarrow> module_vt m description helps types defaults return_routine func = Inr m'
     \<Longrightarrow> registered_module m'"
| by_set_version:
    "registered_module m \<Longrightarrow> set_version m version = Inr m' \<Longrightarrow> registered_module m'"

definition vc_invariant :: "('v, 'c) module \<Rightarrow> bool" where
  \<comment> \<open>every registered base name has at least one version and an installed wrapper\<close>
  "vc_invariant m \<longleftrightarrow>
     list_all (\<lambda>(name, method_dict). method_dict \<noteq> [] \<and> map_of (m_attrs m) name \<noteq> None)
       (m_method_dicts m)"

definition refreshed ::
  "string \<Rightarrow> (string \<times> ('v, 'c) pyfunc) list \<Rightarrow> string \<Rightarrow> ('v, 'c) wrapper
   \<Rightarrow> error + ('v, 'c) wrapper" where
  \<comment> \<open>the attributes of the wrapper after \<open>_update_module_vc\<close>\<close>
  "refreshed function_name method_dict version wrapper =
     (case get_last_version (sort (map fst method_dict)) version of
        Some function_version \<Rightarrow>
          (case map_of method_dict function_version of
             None \<Rightarrow> Inl KeyError
           | Some f \<Rightarrow>
               Inr ((update_wrapper wrapper f)
                      \<lparr>w_name := function_name, w_qualname := function_name\<rparr>))
      | None \<Rightarrow>
          (case get_first_available_version (sort (map fst method_dict)) of
             Inl e \<Rightarrow> Inl e
           | Inr first \<Rightarrow>
               Inr (wrapper\<lparr>w_doc := Some (unavailable_doc function_name version first),
                            w_name := function_name, w_qualname := function_name\<rparr>)))"

fun dec :: "string \<Rightarrow> nat" where
  \<comment> \<open>the number that a string of decimal digits denotes\<close>
  "dec [] = 0"
| "dec (c # cs) = digit_val c * 10 ^ length cs + dec cs"

section \<open>The resolver is a predecessor search\<close>

lemma bisect_right_loop_inv:
  assumes "sorted a" "lo \<le> hi" "hi \<le> length a"
    "\<forall>i<lo. a ! i \<le> x" "\<forall>i. hi \<le> i \<and> i < length a \<longrightarrow> x < a ! i"
  shows "bisect_right_loop a x lo hi \<le> length a \<and>
         (\<forall>i<bisect_right_loop a x lo hi. a ! i \<le> x) \<and>
         (\<forall>i. bisect_right_loop a x lo hi \<le> i \<and> i < length a \<longrightarrow> x < a ! i)"
  using assms
proof (induction a x lo hi rule: bisect_right_loop.induct)
  case (1 a x lo hi)
  let ?mid = "(lo + hi) div 2"
  show ?case
  proof (cases "lo < hi")
    case False
    then have "bisect_right_loop a x lo hi = lo"
      by (subst bisect_right_loop.simps) simp
    with "1.prems" False show ?thesis by simp
  next
    case True
    then have mid: "lo \<le> ?mid" "?mid < hi" by auto
    show ?thesis
    proof (cases "x < a ! ?mid")
      case lt: True
      have hi_inv: "\<forall>i. ?mid \<le> i \<and> i < length a \<longrightarrow> x < a ! i"
      proof (intro allI impI)
        fix i assume i: "?mid \<le> i \<and> i < length a"
        then have "a ! ?mid \<le> a ! i"
          using \<open>sorted a\<close> by (rule_tac sorted_nth_mono) simp_all
        with lt show "x < a ! i" by simp
      qed
      have unfold: "bisect_right_loop a x lo hi = bisect_right_loop a x lo ?mid"
        using True lt by (subst bisect_right_loop.simps) simp
      have "?mid \<le> length a" using mid "1.prems"(3) by linarith
      from "1.IH"(1) [OF True lt "1.prems"(1) mid(1) this "1.prems"(4) hi_inv]
      show ?thesis unfolding unfold .
    next
      case ge: False
      have lo_inv: "\<forall>i<?mid + 1. a ! i \<le> x"
      proof (intro allI impI)
        fix i assume i: "i < ?mid + 1"
        have "?mid < length a" using mid "1.prems"(3) by linarith
        moreover from i have "i \<le> ?mid" by linarith
        ultimately have "a ! i \<le> a ! ?mid"
          using \<open>sorted a\<close> by (rule_tac sorted_nth_mono)
        with ge show "a ! i \<le> x" by simp
      qed
      have unfold: "bisect_right_loop a x lo hi = bisect_right_loop a x (?mid + 1) hi"
        using True ge by (subst bisect_right_loop.simps) simp
      have "?mid + 1 \<le> hi" using mid by linarith
      from "1.IH"(2) [OF True ge "1.prems"(1) this "1.prems"(3) lo_inv "1.prems"(5)]
      show ?thesis unfolding unfold .
    qed
  qed
qed

lemma bisect_right_spec:
  assumes "sorted a"
  shows "bisect_right a x \<le> length a"
    and "\<And>i. i < bisect_right a x \<Longrightarrow> a ! i \<le> x"
    and "\<And>i. bisect_right a x \<le> i \<Longrightarrow> i < length a \<Longrightarrow> x < a ! i"
proof -
  have "\<forall>i<0. a ! i \<le> x" by simp
  moreover have "\<forall>i. length a \<le> i \<and> i < length a \<longrightarrow> x < a ! i" by auto
  ultimately have inv: "bisect_right a x \<le> length a \<and>
         (\<forall>i<bisect_right a x. a ! i \<le> x) \<and>
         (\<forall>i. bisect_right a x \<le> i \<and> i < length a \<longrightarrow> x < a ! i)"
    unfolding bisect_right_def
    using bisect_right_loop_inv [OF assms, of 0 "length a" x] by blast
  from inv show "bisect_right a x \<le> length a" by blast
  from inv show "\<And>i. i < bisect_right a x \<Longrightarrow> a ! i \<le> x" by blast
  from inv show "\<And>i. bisect_right a x \<le> i \<Longrightarrow> i < length a \<Longrightarrow> x < a ! i" by blast
qed

lemma get_last_version_None:
  assumes "sorted L"
  shows "get_last_version L V = None \<longleftrightarrow> (\<forall>e\<in>set L. V < e)"
proof -
  let ?r = "bisect_right L V"
  note sp = bisect_right_spec [OF assms, where x = V]
  show ?thesis
  proof (cases "?r = 0")
    case True
    then have none: "get_last_version L V = None"
      by (simp add: get_last_version_def)
    have "\<forall>e\<in>set L. V < e"
    proof
      fix e assume "e \<in> set L"
      then obtain i where "i < length L" "L ! i = e"
        by (auto simp: in_set_conv_nth)
      with sp(3) [of i] True show "V < e" by auto
    qed
    with none show ?thesis by simp
  next
    case False
    then have pos: "?r - 1 < ?r" by simp
    from False have idx: "\<not> int ?r - 1 < 0" by arith
    have some: "get_last_version L V \<noteq> None"
      unfolding get_last_version_def Let_def by (simp only: idx if_False) simp
    have "L ! (?r - 1) \<in> set L" using pos sp(1) by simp
    moreover have "L ! (?r - 1) \<le> V" using sp(2) [OF pos] .
    ultimately have "\<not> (\<forall>e\<in>set L. V < e)" by (meson leD)
    with some show ?thesis by blast
  qed
qed

lemma get_last_version_Some:
  assumes "sorted L" "get_last_version L V = Some e"
  shows "e \<in> set L" "e \<le> V" "\<And>e'. e' \<in> set L \<Longrightarrow> e' \<le> V \<Longrightarrow> e' \<le> e"
proof -
  let ?r = "bisect_right L V"
  note sp = bisect_right_spec [OF assms(1), where x = V]
  have nz: "?r \<noteq> 0"
    using assms(2) by (auto simp: get_last_version_def split: if_splits)
  then have pos: "?r - 1 < ?r" by simp
  from nz have idx: "\<not> int ?r - 1 < 0" "nat (int ?r - 1) = ?r - 1" by arith+
  have "get_last_version L V = Some (L ! (?r - 1))"
    unfolding get_last_version_def Let_def by (simp only: idx if_False)
  with assms(2) have e: "e = L ! (?r - 1)" by simp
  show "e \<in> set L" using pos sp(1) e by simp
  show "e \<le> V" using sp(2) [OF pos] e by simp
  show "e' \<le> e" if "e' \<in> set L" "e' \<le> V" for e'
  proof -
    from that obtain j where j: "j < length L" "L ! j = e'"
      by (auto simp: in_set_conv_nth)
    have "j < ?r"
    proof (rule ccontr)
      assume "\<not> j < ?r"
      then have "V < L ! j" using sp(3) [of j] j by simp
      with \<open>e' \<le> V\<close> j show False by simp
    qed
    then have "j \<le> ?r - 1" by simp
    moreover have "?r - 1 < length L" using pos sp(1) by simp
    ultimately have "L ! j \<le> L ! (?r - 1)"
      using assms(1) by (rule_tac sorted_nth_mono)
    with j e show ?thesis by simp
  qed
qed

text \<open>
  C1. For an ascending list \<open>L\<close> and a requested version \<open>V\<close>, \<open>_get_last_version\<close>
  returns the greatest element of \<open>L\<close> that is at most \<open>V\<close>; it returns \<open>None\<close> exactly
  when \<open>V\<close> is below every element of \<open>L\<close>, which for a non-empty \<open>L\<close> is \<open>V < min L\<close>.
\<close>

theorem get_last_version_predecessor:
  assumes "sorted L"
  shows "(case get_last_version L V of
            None \<Rightarrow> (\<forall>e\<in>set L. V < e)
          | Some e \<Rightarrow> e \<in> set L \<and> e \<le> V \<and> (\<forall>e'\<in>set L. e' \<le> V \<longrightarrow> e' \<le> e))
         \<and> (get_last_version L V = None \<longleftrightarrow> (\<forall>e\<in>set L. V < e))
         \<and> (L \<noteq> [] \<longrightarrow> (get_last_version L V = None \<longleftrightarrow> V < Min (set L)))"
proof -
  have iff: "get_last_version L V = None \<longleftrightarrow> (\<forall>e\<in>set L. V < e)"
    by (rule get_last_version_None [OF assms])
  have min: "L \<noteq> [] \<longrightarrow> ((\<forall>e\<in>set L. V < e) \<longleftrightarrow> V < Min (set L))"
    by simp
  have "case get_last_version L V of
            None \<Rightarrow> (\<forall>e\<in>set L. V < e)
          | Some e \<Rightarrow> e \<in> set L \<and> e \<le> V \<and> (\<forall>e'\<in>set L. e' \<le> V \<longrightarrow> e' \<le> e)"
  proof (cases "get_last_version L V")
    case None
    with iff show ?thesis by simp
  next
    case (Some e)
    from get_last_version_Some [OF assms Some] Some show ?thesis by simp
  qed
  with iff min show ?thesis by blast
qed

lemma sorted_versions_example:
  "sort [''20200601'', ''20200721''] = [''20200601'', ''20200721'']"
  by code_simp

lemma resolve_example:
  "get_last_version [''20200601'', ''20200721''] ''20200615'' = Some ''20200601''"
  by code_simp

theorem get_last_version_predecessor_witness:
  "sorted [''20200601'', ''20200721''] \<and>
   get_last_version [''20200601'', ''20200721''] ''20200615'' = Some ''20200601'' \<and>
   ''20200601'' \<le> ''20200615'' \<and>
   \<not> ''20200615'' < Min (set [''20200601'', ''20200721''])"
proof -
  have h: "sorted [''20200601'', ''20200721'']" by simp
  from get_last_version_predecessor [OF h, of "''20200615''"] h resolve_example
  show ?thesis by simp
qed

section \<open>The dispatch proxy\<close>

lemma first_of_sorted:
  assumes "sorted xs" "xs \<noteq> []"
  shows "get_first_available_version xs = Inr (Min (set xs))"
proof (cases xs)
  case Nil
  with assms show ?thesis by simp
next
  case (Cons y ys)
  with assms(1) have "\<forall>z\<in>set ys. y \<le> z" by simp
  then have "Min (set (y # ys)) = y"
    by (intro Min_eqI) auto
  with Cons show ?thesis by (simp add: get_first_available_version_def)
qed

lemma first_of_sort:
  assumes "ks \<noteq> []"
  shows "get_first_available_version (sort ks) = Inr (Min (set ks))"
proof -
  have "sort ks \<noteq> []" using assms by (metis length_sort length_0_conv)
  from first_of_sorted [OF sorted_sort this] show ?thesis by simp
qed

lemma resolve_in_keys:
  assumes "get_last_version (sort (map fst method_dict)) V = Some rv"
  shows "\<exists>f. map_of method_dict rv = Some f"
proof -
  from get_last_version_Some(1) [OF sorted_sort assms]
  have "rv \<in> fst ` set method_dict" by simp
  then show ?thesis by (metis domD dom_map_of_conv_image_fst)
qed

text \<open>
  C2. When the requested version \<open>V\<close> (given as \<open>version=V\<close>, or the active version when
  the keyword is omitted) is below every registered version of the name, the proxy
  raises the exception whose text names \<open>V\<close> and the earliest registered version; no
  implementation is called (the outcome does not depend on \<open>call\<close>) and the module is as
  before.
\<close>

theorem run_method_unavailable:
  assumes "method_dict \<noteq> []"
    and "\<forall>k\<in>set (map fst method_dict). V < k"
    and "version = Some V \<or> (version = None \<and> m_version module = V)"
  shows "run_method call function_name method_dict module args version kwargs =
           (Inl (PyException
                  (''The method '' @ function_name @ '' is not available at version '' @ V
                   @ ''. '' @ [CHR 0x0A] @ ''The first available version is ''
                   @ Min (set (map fst method_dict)) @ ''.'')),
            module)"
proof -
  let ?ks = "map fst method_dict"
  have V: "(case version of None \<Rightarrow> m_version module | Some v \<Rightarrow> v) = V"
    using assms(3) by auto
  have "\<forall>e\<in>set (sort ?ks). V < e" using assms(2) by simp
  then have none: "get_last_version (sort ?ks) V = None"
    using get_last_version_None [OF sorted_sort, of ?ks V] by blast
  have first: "get_first_available_version (sort ?ks) = Inr (Min (set ?ks))"
    using assms(1) by (intro first_of_sort) simp
  show ?thesis
    unfolding run_method_def Let_def V none first
    by (simp add: unavailable_message_def)
qed

lemma some_method_dict_keys:
  "map fst some_method_dict = [''20200601'', ''20200721'']"
  by (simp add: some_method_dict_def)

lemma some_method_dict_Min:
  "Min (set [''20200601'', ''20200721'']) = ''20200601''"
  by simp

theorem run_method_unavailable_witness:
  "run_method recording_call ''some_method'' some_method_dict blank_module
     [''A'', ''B'', ''C''] (Some ''20200501'') [] =
   (Inl (PyException
          (''The method some_method is not available at version 20200501. '' @ [CHR 0x0A]
           @ ''The first available version is 20200601.'')),
    blank_module)"
proof -
  have 1: "some_method_dict \<noteq> []" by (simp add: some_method_dict_def)
  have 2: "\<forall>k\<in>set (map fst some_method_dict). ''20200501'' < k"
    by (simp add: some_method_dict_keys)
  have 3: "Some ''20200501'' = Some ''20200501'' \<or>
           (Some ''20200501'' = None \<and> m_version blank_module = ''20200501'')" by simp
  from run_method_unavailable [OF 1 2 3, of recording_call "''some_method''" "[''A'', ''B'', ''C'']" "[]"]
  show ?thesis by (simp add: some_method_dict_keys)
qed

text \<open>
  C4. With an explicit \<open>version=v\<close> the proxy selects the same implementation whatever
  the active version of the module is, and it gives the same result when the
  implementations themselves do not read the active version.
\<close>

theorem run_method_explicit_version:
  "fst (run_method recording_call function_name method_dict
          (module\<lparr>m_version := A1\<rparr>) args (Some v) kwargs) =
   fst (run_method recording_call function_name method_dict
          (module\<lparr>m_version := A2\<rparr>) args (Some v) kwargs)
   \<and> ((\<forall>f s A. fst (call f args kwargs (s\<lparr>m_version := A\<rparr>)) = fst (call f args kwargs s))
        \<longrightarrow> fst (run_method call function_name method_dict
                   (module\<lparr>m_version := A1\<rparr>) args (Some v) kwargs) =
            fst (run_method call function_name method_dict
                   (module\<lparr>m_version := A2\<rparr>) args (Some v) kwargs))"
proof -
  have gen: "fst (run_method c function_name method_dict
                   (module\<lparr>m_version := A1\<rparr>) args (Some v) kwargs) =
             fst (run_method c function_name method_dict
                   (module\<lparr>m_version := A2\<rparr>) args (Some v) kwargs)"
    if "\<And>f s A. fst (c f args kwargs (s\<lparr>m_version := A\<rparr>)) = fst (c f args kwargs s)"
    for c :: "('a, 'b) pyfunc \<Rightarrow> 'a list \<Rightarrow> (string \<times> 'a) list \<Rightarrow> ('a, 'b) module
                \<Rightarrow> (error + 'r) \<times> ('a, 'b) module"
  proof -
    have "fst (c f args kwargs (module\<lparr>m_version := A1\<rparr>)) =
          fst (c f args kwargs (module\<lparr>m_version := A2\<rparr>))" for f
      using that [where s = module and A = A1 and f = f] that [where s = module and A = A2 and f = f] by simp
    then show ?thesis
      by (simp add: run_method_def split: option.splits sum.splits)
  qed
  have "fst (run_method recording_call function_name method_dict
          (module\<lparr>m_version := A1\<rparr>) args (Some v) kwargs) =
   fst (run_method recording_call function_name method_dict
          (module\<lparr>m_version := A2\<rparr>) args (Some v) kwargs)"
    by (simp add: run_method_def recording_call_def split: option.splits sum.splits)
  with gen show ?thesis by blast
qed


lemma some_method_explicit_20200615:
  "run_method recording_call ''some_method'' some_method_dict module
     [''A'', ''B'', ''C''] (Some ''20200615'') [] =
   (Inr (some_method_20200601, [''A'', ''B'', ''C''], []), module)"
  by (simp add: run_method_def some_method_dict_keys sorted_versions_example resolve_example)
     (simp add: some_method_dict_def recording_call_def)

theorem run_method_explicit_version_witness:
  "fst (run_method recording_call ''some_method'' some_method_dict
          (blank_module\<lparr>m_version := ''20200801''\<rparr>) [''A'', ''B'', ''C'']
          (Some ''20200615'') []) =
     Inr (some_method_20200601, [''A'', ''B'', ''C''], []) \<and>
   fst (run_method recording_call ''some_method'' some_method_dict
          (blank_module\<lparr>m_version := ''20200101''\<rparr>) [''A'', ''B'', ''C'']
          (Some ''20200615'') []) =
     Inr (some_method_20200601, [''A'', ''B'', ''C''], [])"
proof -
  have pure: "\<forall>f s A. fst (recording_call f [''A'', ''B'', ''C''] [] (s\<lparr>m_version := A\<rparr>)) =
                      fst (recording_call f [''A'', ''B'', ''C''] [] s)"
    by (simp add: recording_call_def)
  from run_method_explicit_version
         [where function_name = "''some_method''" and method_dict = some_method_dict
            and module = blank_module and ?A1.0 = "''20200801''" and ?A2.0 = "''20200101''"
            and args = "[''A'', ''B'', ''C'']" and v = "''20200615''" and kwargs = "[]"
            and call = recording_call]
       pure
  have "fst (run_method recording_call ''some_method'' some_method_dict
          (blank_module\<lparr>m_version := ''20200801''\<rparr>) [''A'', ''B'', ''C'']
          (Some ''20200615'') []) =
        fst (run_method recording_call ''some_method'' some_method_dict
          (blank_module\<lparr>m_version := ''20200101''\<rparr>) [''A'', ''B'', ''C'']
          (Some ''20200615'') [])"
    by blast
  then show ?thesis
    by (simp add: some_method_explicit_20200615)
qed

text \<open>
  C5. A proxy call is the forwarded call and nothing else: when a version resolves, the
  outcome and the module state are those of the resolved implementation called on the
  same positional and keyword arguments in the unchanged module; when none resolves the
  call raises and the module is unchanged. So the registry tables and the active
  version are as before whenever the implementations leave them alone.
\<close>

theorem run_method_frame:
  "(\<forall>rversion f.
      get_last_version (sort (map fst method_dict))
        (case version of None \<Rightarrow> m_version module | Some v \<Rightarrow> v) = Some rversion
      \<longrightarrow> map_of method_dict rversion = Some f
      \<longrightarrow> run_method call function_name method_dict module args version kwargs =
            call f args kwargs module)
   \<and> (get_last_version (sort (map fst method_dict))
        (case version of None \<Rightarrow> m_version module | Some v \<Rightarrow> v) = None
      \<longrightarrow> isl (fst (run_method call function_name method_dict module args version kwargs))
          \<and> snd (run_method call function_name method_dict module args version kwargs) =
              module)
   \<and> ((\<forall>f a k s. m_method_dicts (snd (call f a k s)) = m_method_dicts s
                 \<and> m_tool_dicts (snd (call f a k s)) = m_tool_dicts s
                 \<and> m_version (snd (call f a k s)) = m_version s)
      \<longrightarrow> m_method_dicts
            (snd (run_method call function_name method_dict module args version kwargs)) =
            m_method_dicts module
        \<and> m_tool_dicts
            (snd (run_method call function_name method_dict module args version kwargs)) =
            m_tool_dicts module
        \<and> m_version
            (snd (run_method call function_name method_dict module args version kwargs)) =
            m_version module)"
  by (simp add: run_method_def Let_def split: option.splits sum.splits)

theorem run_method_frame_witness:
  "run_method recording_call ''some_method'' some_method_dict
     (blank_module\<lparr>m_version := ''20200801''\<rparr>) [''A'', ''B'', ''C'', ''D''] None
     [(''flag'', ''x'')] =
   recording_call some_method_20200721 [''A'', ''B'', ''C'', ''D''] [(''flag'', ''x'')]
     (blank_module\<lparr>m_version := ''20200801''\<rparr>)"
proof -
  have r: "get_last_version (sort (map fst some_method_dict))
             (case None of None \<Rightarrow> m_version (blank_module\<lparr>m_version := ''20200801''\<rparr>)
              | Some v \<Rightarrow> v) = Some ''20200721''"
    unfolding some_method_dict_keys sorted_versions_example by code_simp
  have l: "map_of some_method_dict ''20200721'' = Some some_method_20200721"
    by (simp add: some_method_dict_def)
  from run_method_frame
         [where method_dict = some_method_dict and version = None
            and module = "blank_module\<lparr>m_version := ''20200801''\<rparr>"
            and call = recording_call and function_name = "''some_method''"
            and args = "[''A'', ''B'', ''C'', ''D'']" and kwargs = "[(''flag'', ''x'')]"]
       r l
  show ?thesis by blast
qed

section \<open>Refreshing the wrappers\<close>

lemma update_module_vc_refreshed:
  "update_module_vc m function_name version =
     (case map_of (m_method_dicts m) function_name of
        None \<Rightarrow> Inl KeyError
      | Some method_dict \<Rightarrow>
          (case map_of (m_attrs m) function_name of
             None \<Rightarrow> Inl AttributeError
           | Some wrapper \<Rightarrow>
               (case refreshed function_name method_dict version wrapper of
                  Inl e \<Rightarrow> Inl e
                | Inr w \<Rightarrow>
                    Inr (m\<lparr>m_attrs := AList.update function_name w (m_attrs m)\<rparr>))))"
  by (simp add: update_module_vc_def refreshed_def split: option.splits sum.splits)

lemma refreshed_total:
  assumes "method_dict \<noteq> []"
  shows "\<exists>w. refreshed function_name method_dict version wrapper = Inr w"
proof (cases "get_last_version (sort (map fst method_dict)) version")
  case None
  from assms have "map fst method_dict \<noteq> []" by simp
  from first_of_sort [OF this] None show ?thesis
    by (simp add: refreshed_def)
next
  case (Some rv)
  from resolve_in_keys [OF Some] Some show ?thesis
    by (auto simp: refreshed_def)
qed

lemma map_add_twice: "(a ++ b) ++ b = a ++ b"
  by (simp add: map_add_def fun_eq_iff split: option.splits)

lemma refreshed_idem:
  assumes "refreshed function_name method_dict version wrapper = Inr w"
  shows "refreshed function_name method_dict version w = Inr w"
  using assms
  by (auto simp: refreshed_def update_wrapper_def map_add_twice
           split: option.splits sum.splits)

lemma update_module_vc_frame:
  assumes "update_module_vc m function_name version = Inr m'"
  shows "m_method_dicts m' = m_method_dicts m" "m_tool_dicts m' = m_tool_dicts m"
    "m_version m' = m_version m" "m_module_display_version m' = m_module_display_version m"
    "map_of (m_attrs m') function_name \<noteq> None"
    "\<And>n. map_of (m_attrs m) n \<noteq> None \<Longrightarrow> map_of (m_attrs m') n \<noteq> None"
  using assms
  by (auto simp: update_module_vc_refreshed update_conv' split: option.splits sum.splits)

lemma update_module_vc_total:
  assumes "map_of (m_method_dicts m) function_name = Some method_dict" "method_dict \<noteq> []"
    "map_of (m_attrs m) function_name \<noteq> None"
  shows "\<exists>m'. update_module_vc m function_name version = Inr m'"
proof -
  from assms(3) obtain wrapper where w: "map_of (m_attrs m) function_name = Some wrapper"
    by auto
  from refreshed_total [OF assms(2)] obtain w' where
    "refreshed function_name method_dict version wrapper = Inr w'" by blast
  with assms(1) w show ?thesis
    by (simp add: update_module_vc_refreshed)
qed

lemma update_module_vc_fixed:
  assumes "update_module_vc m function_name version = Inr m'"
  shows "update_module_vc m' function_name version = Inr m'"
  using assms
  by (auto simp: update_module_vc_refreshed update_conv' refreshed_idem
           split: option.splits sum.splits)

lemma update_module_vc_keeps_fixed:
  assumes fixed: "update_module_vc m n' version = Inr m"
    and step: "update_module_vc m n version = Inr m1"
  shows "update_module_vc m1 n' version = Inr m1"
proof (cases "n' = n")
  case True
  with fixed step have "m1 = m" by simp
  with fixed show ?thesis by simp
next
  case False
  from fixed obtain md w w' where
    md: "map_of (m_method_dicts m) n' = Some md" and
    w: "map_of (m_attrs m) n' = Some w" and
    r: "refreshed n' md version w = Inr w'" and
    eq: "m\<lparr>m_attrs := AList.update n' w' (m_attrs m)\<rparr> = m"
    by (auto simp: update_module_vc_refreshed split: option.splits sum.splits)
  from eq have "m_attrs (m\<lparr>m_attrs := AList.update n' w' (m_attrs m)\<rparr>) = m_attrs m"
    by simp
  then have upd: "AList.update n' w' (m_attrs m) = m_attrs m" by simp
  have "map_of (AList.update n' w' (m_attrs m)) n' = Some w'"
    by (simp add: update_conv')
  with upd w have ww: "w' = w" by simp
  from step obtain w1 where
    m1: "m1 = m\<lparr>m_attrs := AList.update n w1 (m_attrs m)\<rparr>"
    by (auto simp: update_module_vc_refreshed split: option.splits sum.splits)
  have look: "map_of (m_attrs m1) n' = Some w"
    using False w by (simp add: m1 update_conv')
  then have "AList.update n' w (m_attrs m1) = m_attrs m1"
    by (rule update_triv)
  with md look r ww show ?thesis
    by (simp add: update_module_vc_refreshed m1)
qed

lemma update_all_frame:
  assumes "update_all m names version = Inr m'"
  shows "m_method_dicts m' = m_method_dicts m \<and> m_tool_dicts m' = m_tool_dicts m \<and>
         m_version m' = m_version m \<and>
         m_module_display_version m' = m_module_display_version m \<and>
         (\<forall>n. map_of (m_attrs m) n \<noteq> None \<longrightarrow> map_of (m_attrs m') n \<noteq> None)"
  using assms
proof (induction names arbitrary: m)
  case Nil
  then show ?case by simp
next
  case (Cons n names)
  from Cons.prems obtain m1 where
    s: "update_module_vc m n version = Inr m1" and r: "update_all m1 names version = Inr m'"
    by (auto split: sum.splits)
  from Cons.IH [OF r] update_module_vc_frame [OF s] show ?case by simp
qed

lemma update_all_total:
  assumes "\<forall>n\<in>set names. \<exists>md. map_of (m_method_dicts m) n = Some md \<and> md \<noteq> []
             \<and> map_of (m_attrs m) n \<noteq> None"
  shows "\<exists>m'. update_all m names version = Inr m'"
  using assms
proof (induction names arbitrary: m)
  case Nil
  then show ?case by simp
next
  case (Cons n names)
  from Cons.prems obtain md where
    "map_of (m_method_dicts m) n = Some md" "md \<noteq> []" "map_of (m_attrs m) n \<noteq> None"
    by auto
  from update_module_vc_total [OF this] obtain m1 where
    s: "update_module_vc m n version = Inr m1" by blast
  have "\<forall>n\<in>set names. \<exists>md. map_of (m_method_dicts m1) n = Some md \<and> md \<noteq> []
             \<and> map_of (m_attrs m1) n \<noteq> None"
  proof
    fix k assume "k \<in> set names"
    with Cons.prems obtain md' where
      k: "map_of (m_method_dicts m) k = Some md'" "md' \<noteq> []" "map_of (m_attrs m) k \<noteq> None"
      by auto
    from update_module_vc_frame(6) [OF s k(3)] k(1,2) update_module_vc_frame(1) [OF s]
    show "\<exists>md. map_of (m_method_dicts m1) k = Some md \<and> md \<noteq> []
             \<and> map_of (m_attrs m1) k \<noteq> None"
      by simp
  qed
  from Cons.IH [OF this] s show ?case by simp
qed

lemma update_all_fixes:
  assumes "update_all m names version = Inr m'"
    and "\<forall>n\<in>S. update_module_vc m n version = Inr m"
  shows "\<forall>n\<in>S \<union> set names. update_module_vc m' n version = Inr m'"
  using assms
proof (induction names arbitrary: m S)
  case Nil
  then show ?case by simp
next
  case (Cons n names)
  from Cons.prems(1) obtain m1 where
    s: "update_module_vc m n version = Inr m1" and r: "update_all m1 names version = Inr m'"
    by (auto split: sum.splits)
  have "\<forall>k\<in>insert n S. update_module_vc m1 k version = Inr m1"
    using update_module_vc_fixed [OF s] update_module_vc_keeps_fixed [OF _ s] Cons.prems(2)
    by blast
  from Cons.IH [OF r this] show ?case by simp
qed

lemma update_all_fixed:
  assumes "\<forall>n\<in>set names. update_module_vc m n version = Inr m"
  shows "update_all m names version = Inr m"
  using assms by (induction names) simp_all

lemma set_module_version_fields:
  assumes "set_module_version m version = Inr m'"
  shows "m_version m' = version" "m_method_dicts m' = m_method_dicts m"
    "m_tool_dicts m' = m_tool_dicts m"
    "m_module_display_version m' = m_module_display_version m"
    "\<And>n. map_of (m_attrs m) n \<noteq> None \<Longrightarrow> map_of (m_attrs m') n \<noteq> None"
  using update_all_frame [OF assms [unfolded set_module_version_def]] by simp_all

text \<open>
  C8. Setting the same version twice in a row gives the state that setting it once
  gives: the active version and every attribute of every wrapper (name, qualified name,
  documentation among them) are those after the first call.
\<close>

theorem set_module_version_idempotent:
  assumes "set_module_version m X = Inr m1"
  shows "set_module_version m1 X = Inr m1"
proof -
  let ?names = "map fst (m_method_dicts m)"
  from assms have run: "update_all (m\<lparr>m_version := X\<rparr>) ?names X = Inr m1"
    by (simp add: set_module_version_def)
  have "\<forall>n\<in>{} \<union> set ?names. update_module_vc m1 n X = Inr m1"
    by (rule update_all_fixes [OF run]) simp
  then have "update_all m1 ?names X = Inr m1"
    by (intro update_all_fixed) simp
  moreover have "m1\<lparr>m_version := X\<rparr> = m1"
    using set_module_version_fields(1) [OF assms] by simp
  ultimately show ?thesis
    using set_module_version_fields(2) [OF assms] by (simp add: set_module_version_def)
qed

section \<open>Registration\<close>

lemma rindex_found: "c \<in> set s \<Longrightarrow> \<exists>r. rindex s c = Inr r"
  by (simp add: rindex_def)


lemma set_update_subset: "set (AList.update k v al) \<subseteq> insert (k, v) (set al)"
  by (induction al) auto

lemma module_vc_unfold:
  assumes "rindex (fn_name func) CHR ''_'' = Inr r"
  shows "module_vc m func =
           update_module_vc
             (m\<lparr>m_method_dicts :=
                  AList.update (slice (fn_name func) 1 r)
                    (AList.update (drop (r + 1) (fn_name func)) func
                       (case map_of (m_method_dicts m) (slice (fn_name func) 1 r) of
                          None \<Rightarrow> [] | Some md \<Rightarrow> md))
                    (m_method_dicts m),
                m_attrs :=
                  AList.update (slice (fn_name func) 1 r)
                    (update_wrapper fresh_run_method func) (m_attrs m)\<rparr>)
             (slice (fn_name func) 1 r) (m_version m)"
proof (cases "map_of (m_method_dicts m) (slice (fn_name func) 1 r)")
  case None
  with assms show ?thesis
    by (simp add: module_vc_def Let_def update_conv')
next
  case (Some md)
  with assms show ?thesis
    by (simp add: module_vc_def Let_def)
qed

lemma module_vc_stored:
  assumes "rindex (fn_name func) CHR ''_'' = Inr r"
  shows "\<exists>m' method_dict. module_vc m func = Inr m'
           \<and> map_of (m_method_dicts m') (slice (fn_name func) 1 r) = Some method_dict
           \<and> map_of method_dict (drop (r + 1) (fn_name func)) = Some func"
proof -
  let ?name = "slice (fn_name func) 1 r"
  let ?md = "AList.update (drop (r + 1) (fn_name func)) func
               (case map_of (m_method_dicts m) ?name of None \<Rightarrow> [] | Some md \<Rightarrow> md)"
  let ?m3 = "m\<lparr>m_method_dicts := AList.update ?name ?md (m_method_dicts m),
               m_attrs := AList.update ?name (update_wrapper fresh_run_method func)
                            (m_attrs m)\<rparr>"
  have "map_of (m_method_dicts ?m3) ?name = Some ?md" by (simp add: update_conv')
  moreover have "?md \<noteq> []" by simp
  moreover have "map_of (m_attrs ?m3) ?name \<noteq> None" by (simp add: update_conv')
  ultimately obtain m' where m': "update_module_vc ?m3 ?name (m_version m) = Inr m'"
    using update_module_vc_total by blast
  from update_module_vc_frame(1) [OF m']
  have "map_of (m_method_dicts m') ?name = Some ?md" by (simp add: update_conv')
  moreover have "map_of ?md (drop (r + 1) (fn_name func)) = Some func"
    by (simp add: update_conv')
  ultimately show ?thesis
    using m' module_vc_unfold [OF assms, of m] by simp
qed

lemma module_vc_invariant:
  assumes "vc_invariant m" "module_vc m func = Inr m'"
  shows "vc_invariant m'"
proof -
  from assms(2) obtain r where r: "rindex (fn_name func) CHR ''_'' = Inr r"
    by (auto simp: module_vc_def split: sum.splits)
  let ?name = "slice (fn_name func) 1 r"
  let ?md = "AList.update (drop (r + 1) (fn_name func)) func
               (case map_of (m_method_dicts m) ?name of None \<Rightarrow> [] | Some md \<Rightarrow> md)"
  let ?m3 = "m\<lparr>m_method_dicts := AList.update ?name ?md (m_method_dicts m),
               m_attrs := AList.update ?name (update_wrapper fresh_run_method func)
                            (m_attrs m)\<rparr>"
  from assms(2) module_vc_unfold [OF r, of m]
  have m': "update_module_vc ?m3 ?name (m_version m) = Inr m'" by simp
  note fr = update_module_vc_frame [OF m']
  have "md \<noteq> [] \<and> map_of (m_attrs m') n \<noteq> None"
    if "(n, md) \<in> set (m_method_dicts m')" for n md
  proof -
    from that fr(1) have "(n, md) \<in> set (AList.update ?name ?md (m_method_dicts m))"
      by simp
    with set_update_subset have "(n, md) = (?name, ?md) \<or> (n, md) \<in> set (m_method_dicts m)"
      by fastforce
    then show ?thesis
    proof
      assume "(n, md) = (?name, ?md)"
      with fr(5) show ?thesis by simp
    next
      assume "(n, md) \<in> set (m_method_dicts m)"
      with assms(1) have old: "md \<noteq> []" "map_of (m_attrs m) n \<noteq> None"
        by (auto simp: vc_invariant_def list_all_iff)
      then have "map_of (m_attrs ?m3) n \<noteq> None" by (simp add: update_conv')
      from fr(6) [OF this] old(1) show ?thesis by simp
    qed
  qed
  then show ?thesis
    by (auto simp: vc_invariant_def list_all_iff)
qed

lemma register_result:
  "register default_version module0 module_display_version =
     Inr (module0\<lparr>m_method_dicts := [], m_tool_dicts := [], m_version := default_version,
                  m_module_display_version := module_display_version\<rparr>)"
  by (simp add: register_def set_module_version_def)

lemma module_vt_frame:
  assumes "module_vt m description helps types defaults return_routine func = Inr m'"
  shows "m_method_dicts m' = m_method_dicts m" "m_attrs m' = m_attrs m"
    "m_version m' = m_version m"
  using assms
  by (auto simp: module_vt_def Let_def split: sum.splits option.splits if_splits)

lemma module_vt_total:
  assumes "rindex (fn_name func) CHR ''_'' = Inr r"
  shows "\<exists>m'. module_vt m description helps types defaults return_routine func = Inr m'"
  using assms
  by (auto simp: module_vt_def Let_def update_conv' split: option.splits)

lemma set_version_invariant:
  assumes "vc_invariant m" "set_version m version = Inr m'"
  shows "vc_invariant m'"
proof -
  from assms(2) have s: "set_module_version m version = Inr m'"
    by (simp add: set_version_def)
  from assms(1) set_module_version_fields(2) [OF s] set_module_version_fields(5) [OF s]
  show ?thesis
    by (auto simp: vc_invariant_def list_all_iff)
qed

lemma registered_module_invariant:
  assumes "registered_module m"
  shows "vc_invariant m"
  using assms
proof (induction rule: registered_module.induct)
  case (by_register default_version module0 module_display_version m)
  then show ?case by (auto simp: register_result vc_invariant_def)
next
  case (by_vc m func m')
  then show ?case by (blast intro: module_vc_invariant)
next
  case (by_vt m description helps types defaults return_routine func m')
  from by_vt.IH module_vt_frame(1,2) [OF by_vt.hyps(2)] show ?case
    by (simp add: vc_invariant_def)
next
  case (by_set_version m version m')
  then show ?case by (blast intro: set_version_invariant)
qed

lemma set_module_version_total:
  assumes "vc_invariant m"
  shows "\<exists>m'. set_module_version m version = Inr m'"
proof -
  have "\<forall>n\<in>set (map fst (m_method_dicts m)).
          \<exists>md. map_of (m_method_dicts (m\<lparr>m_version := version\<rparr>)) n = Some md \<and> md \<noteq> []
             \<and> map_of (m_attrs (m\<lparr>m_version := version\<rparr>)) n \<noteq> None"
  proof
    fix n assume "n \<in> set (map fst (m_method_dicts m))"
    then obtain md where md: "map_of (m_method_dicts m) n = Some md"
      by (metis domD dom_map_of_conv_image_fst set_map)
    then have "(n, md) \<in> set (m_method_dicts m)" by (rule map_of_SomeD)
    with assms have "md \<noteq> []" "map_of (m_attrs m) n \<noteq> None"
      by (auto simp: vc_invariant_def list_all_iff)
    with md show "\<exists>md. map_of (m_method_dicts (m\<lparr>m_version := version\<rparr>)) n = Some md
         \<and> md \<noteq> [] \<and> map_of (m_attrs (m\<lparr>m_version := version\<rparr>)) n \<noteq> None"
      by simp
  qed
  from update_all_total [OF this] show ?thesis
    by (simp add: set_module_version_def)
qed


subsection \<open>The example module is registered\<close>

lemma pm_names:
  "CHR ''_'' \<in> set (fn_name some_method_20200601)"
  "CHR ''_'' \<in> set (fn_name some_method_20200721)"
  "CHR ''_'' \<in> set (fn_name other_method_20200801)"
  "CHR ''_'' \<in> set (fn_name copy_file_20200701)"
  by (simp_all add: some_method_20200601_def some_method_20200721_def
        other_method_20200801_def copy_file_20200701_def def_function_def)

lemma module_vc_total:
  assumes "CHR ''_'' \<in> set (fn_name func)"
  shows "\<exists>m'. module_vc m func = Inr m'"
proof -
  from rindex_found [OF assms] obtain r where "rindex (fn_name func) CHR ''_'' = Inr r" ..
  from module_vc_stored [OF this, of m] show ?thesis by blast
qed

lemma pm_import_registered: "\<exists>m. pm_import default_version = Inr m \<and> registered_module m"
proof -
  obtain m0 where m0: "register default_version blank_module None = Inr m0"
    by (simp add: register_result)
  then have r0: "registered_module m0" by (rule by_register)
  obtain m1 where m1: "module_vc m0 some_method_20200601 = Inr m1"
    using module_vc_total [OF pm_names(1)] by blast
  with r0 have r1: "registered_module m1" by (rule by_vc)
  obtain m2 where m2: "module_vc m1 some_method_20200721 = Inr m2"
    using module_vc_total [OF pm_names(2)] by blast
  with r1 have r2: "registered_module m2" by (rule by_vc)
  obtain m3 where m3: "module_vc m2 other_method_20200801 = Inr m3"
    using module_vc_total [OF pm_names(3)] by blast
  with r2 have r3: "registered_module m3" by (rule by_vc)
  obtain m4 where m4: "module_vc m3 copy_file_20200701 = Inr m4"
    using module_vc_total [OF pm_names(4)] by blast
  with r3 have r4: "registered_module m4" by (rule by_vc)
  from rindex_found [OF pm_names(4)] obtain r where
    "rindex (fn_name copy_file_20200701) CHR ''_'' = Inr r" ..
  from module_vt_total [OF this] obtain m5 where
    m5: "module_vt m4 (Some ''File copy method'')
           [''srcfile'' \<mapsto> ''Input source file'', ''dstfile'' \<mapsto> ''Output source file'']
           Map.empty Map.empty None copy_file_20200701 = Inr m5"
    by blast
  with r4 have "registered_module m5" by (rule by_vt)
  moreover have "pm_import default_version = Inr m5"
    by (simp add: pm_import_def and_then_def m0 m1 m2 m3 m4 m5)
  ultimately show ?thesis by blast
qed

lemma pm_module_registered: "registered_module pm_module"
proof -
  from pm_import_registered [of "''20201201''"] obtain m where
    "pm_import ''20201201'' = Inr m" "registered_module m" by blast
  then show ?thesis by (simp add: pm_module_def)
qed


theorem set_module_version_idempotent_witness:
  "\<not> isl (set_module_version pm_module ''20200615'') \<and>
   set_module_version (projr (set_module_version pm_module ''20200615'')) ''20200615'' =
     set_module_version pm_module ''20200615''"
proof -
  from set_module_version_total [OF registered_module_invariant [OF pm_module_registered]]
  obtain m1 where m1: "set_module_version pm_module ''20200615'' = Inr m1" by blast
  from set_module_version_idempotent [OF m1] m1 show ?thesis by simp
qed

subsection \<open>Registration does not look at the version suffix\<close>







section \<open>String order and field-wise integer order\<close>

lemma is_digit_of_char: "is_digit c \<longleftrightarrow> 48 \<le> (of_char c :: nat) \<and> (of_char c :: nat) \<le> 57"
  by (simp add: is_digit_def less_eq_char_def)

lemma digit_not_space: "is_digit c \<Longrightarrow> \<not> is_space c"
  by (auto simp: is_digit_of_char is_space_def)

lemma digit_not_sign: "is_digit c \<Longrightarrow> c \<noteq> CHR ''-'' \<and> c \<noteq> CHR ''+'' \<and> c \<noteq> CHR ''_''"
  by (auto simp: is_digit_of_char)

lemma digit_val_bound: "is_digit c \<Longrightarrow> digit_val c \<le> 9"
  unfolding is_digit_of_char digit_val_def by arith

lemma digit_less: "is_digit c \<Longrightarrow> is_digit d \<Longrightarrow> c < d \<longleftrightarrow> digit_val c < digit_val d"
  unfolding is_digit_of_char digit_val_def less_char_def by arith

lemma digit_eq: "is_digit c \<Longrightarrow> is_digit d \<Longrightarrow> c = d \<longleftrightarrow> digit_val c = digit_val d"
proof -
  assume "is_digit c" "is_digit d"
  then have "digit_val c = digit_val d \<longleftrightarrow> (of_char c :: nat) = of_char d"
    unfolding is_digit_of_char digit_val_def by arith
  then show ?thesis by (simp add: of_char_eq_iff)
qed

lemma dec_bound: "\<forall>c\<in>set s. is_digit c \<Longrightarrow> dec s < 10 ^ length s"
proof (induction s)
  case Nil
  then show ?case by simp
next
  case (Cons c s)
  then have "digit_val c \<le> 9" "dec s < 10 ^ length s"
    by (simp_all add: digit_val_bound)
  then have "digit_val c * 10 ^ length s + dec s < 9 * 10 ^ length s + 10 ^ length s"
    by (intro add_le_less_mono mult_le_mono1)
  then show ?case by simp
qed

lemma dec_append: "dec (s @ t) = dec s * 10 ^ length t + dec t"
  by (induction s) (simp_all add: algebra_simps power_add)

lemma digits_value_dec:
  "\<forall>c\<in>set s. is_digit c \<Longrightarrow> digits_value acc s = Some (acc * 10 ^ length s + dec s)"
  by (induction s arbitrary: acc) (simp_all add: algebra_simps)

lemma strip_digits:
  assumes "\<forall>c\<in>set s. is_digit c"
  shows "strip s = s"
proof (cases s)
  case Nil
  then show ?thesis by (simp add: strip_def)
next
  case (Cons c cs)
  with assms have "\<not> is_space c" by (simp add: digit_not_space)
  with Cons have 1: "dropWhile is_space s = s" by simp
  from Cons have "rev s \<noteq> []" by simp
  then obtain d ds where r: "rev s = d # ds" by (cases "rev s") auto
  then have "d \<in> set s" by (metis list.set_intros(1) set_rev)
  with assms have "\<not> is_space d" by (simp add: digit_not_space)
  with r have "dropWhile is_space (rev s) = rev s" by simp
  with 1 show ?thesis by (simp add: strip_def)
qed

lemma py_int_digits:
  assumes "s \<noteq> []" "\<forall>c\<in>set s. is_digit c"
  shows "py_int s = Inr (int (dec s))"
proof -
  from assms(1) obtain c cs where s: "s = c # cs" by (cases s) auto
  with assms(2) have c: "is_digit c" by simp
  from digits_value_dec [OF assms(2), of 0] have "digits_value 0 (c # cs) = Some (dec (c # cs))"
    by (simp add: s)
  moreover have "strip (c # cs) = c # cs"
    using strip_digits [OF assms(2)] by (simp add: s)
  ultimately show ?thesis
    using c digit_not_sign [OF c] by (simp add: py_int_def Let_def s)
qed

lemma block_less:
  fixes a b x y P :: nat
  assumes "x < P" "y < P"
  shows "a * P + x < b * P + y \<longleftrightarrow> a < b \<or> (a = b \<and> x < y)"
proof (cases a b rule: linorder_cases)
  case less
  then have "Suc a * P \<le> b * P" by (intro mult_le_mono1) simp
  with assms less show ?thesis by simp
next
  case equal
  then show ?thesis by simp
next
  case greater
  then have "Suc b * P \<le> a * P" by (intro mult_le_mono1) simp
  with assms greater show ?thesis by simp
qed

lemma block_eq:
  fixes a b x y P :: nat
  assumes "x < P" "y < P"
  shows "a * P + x = b * P + y \<longleftrightarrow> a = b \<and> x = y"
  using block_less [OF assms, of a b] block_less [OF assms(2,1), of b a] by auto

lemma digits_less_dec:
  assumes "length s = length t" "\<forall>c\<in>set s. is_digit c" "\<forall>c\<in>set t. is_digit c"
  shows "(s < t \<longleftrightarrow> dec s < dec t) \<and> (s = t \<longleftrightarrow> dec s = dec t)"
  using assms
proof (induction s t rule: list_induct2)
  case Nil
  then show ?case by simp
next
  case (Cons c s d t)
  then have IH: "s < t \<longleftrightarrow> dec s < dec t" "s = t \<longleftrightarrow> dec s = dec t" by simp_all
  from Cons.prems have cd: "is_digit c" "is_digit d" by simp_all
  from Cons.prems Cons.hyps have b: "dec s < 10 ^ length t" "dec t < 10 ^ length t"
    using dec_bound [of s] dec_bound [of t] by simp_all
  show ?case
    using block_less [OF b, of "digit_val c" "digit_val d"]
      block_eq [OF b, of "digit_val c" "digit_val d"]
      digit_less [OF cd] digit_eq [OF cd] IH Cons.hyps
    by simp
qed


lemma compare_version_fields:
  assumes "py_int (slice v1 0 4) = Inr y1" "py_int (slice v2 0 4) = Inr y2"
    "py_int (slice v1 4 6) = Inr mo1" "py_int (slice v2 4 6) = Inr mo2"
    "py_int (slice v1 6 8) = Inr d1" "py_int (slice v2 6 8) = Inr d2"
  shows "compare_version v1 v2 =
           Inr (Some (if y1 < y2 then - 1 else if y2 < y1 then 1
                      else if mo1 < mo2 then - 1 else if mo2 < mo1 then 1
                      else if d1 < d2 then - 1 else if d2 < d1 then 1 else 0))"
  using assms by (simp add: compare_version_def int_compare_def)

lemma version_key_fields:
  assumes "length v = 8" "\<forall>c\<in>set v. is_digit c"
  shows "py_int (slice v 0 4) = Inr (int (dec (take 4 v)))"
    and "py_int (slice v 4 6) = Inr (int (dec (take 2 (drop 4 v))))"
    and "py_int (slice v 6 8) = Inr (int (dec (drop 6 v)))"
    and "dec v = dec (take 4 v) * 10000 + dec (take 2 (drop 4 v)) * 100 + dec (drop 6 v)"
    and "dec (take 2 (drop 4 v)) < 100" and "dec (drop 6 v) < 100"
proof -
  have digits: "\<forall>c\<in>set (take 4 v). is_digit c" "\<forall>c\<in>set (take 2 (drop 4 v)). is_digit c"
    "\<forall>c\<in>set (drop 6 v). is_digit c"
    using assms(2) by (auto dest: in_set_takeD in_set_dropD)
  have len: "length (take 4 v) = 4" "length (take 2 (drop 4 v)) = 2" "length (drop 6 v) = 2"
    using assms(1) by simp_all
  then have ne: "take 4 v \<noteq> []" "take 2 (drop 4 v) \<noteq> []" "drop 6 v \<noteq> []"
    by auto
  have last: "take 2 (drop 6 v) = drop 6 v" using len(3) by simp
  show "py_int (slice v 0 4) = Inr (int (dec (take 4 v)))"
    using py_int_digits [OF ne(1) digits(1)] by (simp add: slice_def)
  show "py_int (slice v 4 6) = Inr (int (dec (take 2 (drop 4 v))))"
    using py_int_digits [OF ne(2) digits(2)] by (simp add: slice_def)
  show "py_int (slice v 6 8) = Inr (int (dec (drop 6 v)))"
    using py_int_digits [OF ne(3) digits(3)] last by (simp add: slice_def)
  have "v = take 4 v @ drop 4 v" by simp
  moreover have "drop 4 v = take 2 (drop 4 v) @ drop 6 v"
  proof -
    have "drop 2 (drop 4 v) = drop 6 v" by simp
    with append_take_drop_id [of 2 "drop 4 v"] show ?thesis by simp
  qed
  ultimately have "v = take 4 v @ take 2 (drop 4 v) @ drop 6 v" by simp
  then have "dec v = dec (take 4 v @ take 2 (drop 4 v) @ drop 6 v)" by simp
  also have "\<dots> = dec (take 4 v) * 10 ^ (length (take 2 (drop 4 v)) + length (drop 6 v))
                    + (dec (take 2 (drop 4 v)) * 10 ^ length (drop 6 v) + dec (drop 6 v))"
    by (simp only: dec_append length_append)
  also have "\<dots> = dec (take 4 v) * 10000 + dec (take 2 (drop 4 v)) * 100 + dec (drop 6 v)"
    by (simp only: len) simp
  finally show "dec v = dec (take 4 v) * 10000 + dec (take 2 (drop 4 v)) * 100 + dec (drop 6 v)" .
  show "dec (take 2 (drop 4 v)) < 100"
    using dec_bound [OF digits(2)] len(2) by simp
  show "dec (drop 6 v) < 100"
    using dec_bound [OF digits(3)] len(3) by simp
qed

text \<open>
  C9. On version keys of eight decimal digits the string order that \<open>bisect\<close> uses and
  the year, month, day comparison of \<open>_compare_version\<close> agree: smaller, equal and
  greater as strings are the results \<open>-1\<close>, \<open>0\<close> and \<open>1\<close>.
\<close>

theorem compare_version_string_order:
  assumes "length v1 = 8" "length v2 = 8"
    and "\<forall>c\<in>set v1. is_digit c" "\<forall>c\<in>set v2. is_digit c"
  shows "(v1 < v2 \<longleftrightarrow> compare_version v1 v2 = Inr (Some (- 1)))
       \<and> (v1 = v2 \<longleftrightarrow> compare_version v1 v2 = Inr (Some 0))
       \<and> (v2 < v1 \<longleftrightarrow> compare_version v1 v2 = Inr (Some 1))"
proof -
  note f1 = version_key_fields [OF assms(1,3)]
  note f2 = version_key_fields [OF assms(2,4)]
  define y1 mo1 d1 where "y1 = dec (take 4 v1)" and "mo1 = dec (take 2 (drop 4 v1))"
    and "d1 = dec (drop 6 v1)"
  define y2 mo2 d2 where "y2 = dec (take 4 v2)" and "mo2 = dec (take 2 (drop 4 v2))"
    and "d2 = dec (drop 6 v2)"
  note defs = y1_def mo1_def d1_def y2_def mo2_def d2_def
  have cv: "compare_version v1 v2 =
           Inr (Some (if y1 < y2 then - 1 else if y2 < y1 then 1
                      else if mo1 < mo2 then - 1 else if mo2 < mo1 then 1
                      else if d1 < d2 then - 1 else if d2 < d1 then 1 else 0))"
    using compare_version_fields [OF f1(1) f2(1) f1(2) f2(2) f1(3) f2(3)]
    by (simp add: defs)
  have n1: "dec v1 = y1 * 10000 + mo1 * 100 + d1" "mo1 < 100" "d1 < 100"
    using f1(4,5,6) by (simp_all add: defs)
  have n2: "dec v2 = y2 * 10000 + mo2 * 100 + d2" "mo2 < 100" "d2 < 100"
    using f2(4,5,6) by (simp_all add: defs)
  have len: "length v1 = length v2" "length v2 = length v1" using assms(1,2) by simp_all
  have lt: "v1 < v2 \<longleftrightarrow> dec v1 < dec v2" and eq: "v1 = v2 \<longleftrightarrow> dec v1 = dec v2"
    using digits_less_dec [OF len(1) assms(3,4)] by simp_all
  have gt: "v2 < v1 \<longleftrightarrow> dec v2 < dec v1"
    using digits_less_dec [OF len(2) assms(4,3)] by simp
  have a: "dec v1 < dec v2 \<longleftrightarrow> y1 < y2 \<or> (y1 = y2 \<and> (mo1 < mo2 \<or> (mo1 = mo2 \<and> d1 < d2)))"
    unfolding n1(1) n2(1) using n1(2,3) n2(2,3) by arith
  have b: "dec v2 < dec v1 \<longleftrightarrow> y2 < y1 \<or> (y2 = y1 \<and> (mo2 < mo1 \<or> (mo2 = mo1 \<and> d2 < d1)))"
    unfolding n1(1) n2(1) using n1(2,3) n2(2,3) by arith
  have c: "dec v1 = dec v2 \<longleftrightarrow> \<not> dec v1 < dec v2 \<and> \<not> dec v2 < dec v1"
    by arith
  show ?thesis
  proof (cases "dec v1 < dec v2")
    case True
    then have r: "compare_version v1 v2 = Inr (Some (- 1))"
      unfolding cv using a b by (cases "y1 < y2"; cases "mo1 < mo2"; simp)
    from True have "\<not> dec v2 < dec v1" "dec v1 \<noteq> dec v2" by simp_all
    with True r show ?thesis unfolding lt eq gt by simp
  next
    case False
    show ?thesis
    proof (cases "dec v2 < dec v1")
      case True
      have "\<not> y1 < y2" using False a by blast
      moreover have "y2 < y1 \<or> (y2 = y1 \<and> (mo2 < mo1 \<or> (mo2 = mo1 \<and> d2 < d1)))"
        using True b by blast
      ultimately have r: "compare_version v1 v2 = Inr (Some 1)"
        unfolding cv by (cases "y2 < y1"; cases "mo2 < mo1"; auto)
      from True have "dec v1 \<noteq> dec v2" by simp
      with True False r show ?thesis unfolding lt eq gt by simp
    next
      case nogt: False
      with False have e: "dec v1 = dec v2" by simp
      have "\<not> y1 < y2" "\<not> y2 < y1" using False nogt a b by blast+
      moreover then have "\<not> mo1 < mo2" "\<not> mo2 < mo1" using False nogt a b by auto
      moreover then have "\<not> d1 < d2" "\<not> d2 < d1" using False nogt a b calculation by auto
      ultimately have r: "compare_version v1 v2 = Inr (Some 0)"
        unfolding cv by simp
      with e show ?thesis unfolding lt eq gt by simp
    qed
  qed
qed

lemma version_key_20200601: "length ''20200601'' = 8" "\<forall>c\<in>set ''20200601''. is_digit c"
  by (simp_all add: is_digit_def)

lemma version_key_20200721: "length ''20200721'' = 8" "\<forall>c\<in>set ''20200721''. is_digit c"
  by (simp_all add: is_digit_def)

theorem compare_version_string_order_witness:
  "''20200601'' < ''20200721'' \<and>
   compare_version ''20200601'' ''20200721'' = Inr (Some (- 1)) \<and>
   compare_version ''20200721'' ''20200601'' = Inr (Some 1)"
proof -
  have lt: "''20200601'' < ''20200721''" by simp
  from compare_version_string_order
         [OF version_key_20200601(1) version_key_20200721(1)
             version_key_20200601(2) version_key_20200721(2)]
       compare_version_string_order
         [OF version_key_20200721(1) version_key_20200601(1)
             version_key_20200721(2) version_key_20200601(2)]
       lt
  show ?thesis by blast
qed

section \<open>The generated subcommands\<close>

lemma add_argument_result:
  assumes "add_argument parser flag kw = Inr parser'"
  shows "sp_name parser' = sp_name parser"
    and "sp_arguments parser' = sp_arguments parser @ [(flag, kw)]"
  using assms by (auto simp: add_argument_def split: if_splits)

lemma add_signature_params_name:
  assumes "add_signature_params helps types defaults params parser = Inr parser'"
  shows "sp_name parser' = sp_name parser"
  using assms
proof (induction params arbitrary: parser)
  case Nil
  then show ?case by simp
next
  case (Cons p params)
  from Cons.prems obtain kw parser1 where
    a: "add_argument parser (''-'' @ p_name p) kw = Inr parser1" and
    r: "add_signature_params helps types defaults params parser1 = Inr parser'"
    by (auto split: sum.splits)
  from Cons.IH [OF r] add_argument_result(1) [OF a] show ?case by simp
qed

lemma add_return_params_name:
  assumes "add_return_params helps types defaults names parser = Inr parser'"
  shows "sp_name parser' = sp_name parser"
  using assms
proof (induction names arbitrary: parser)
  case Nil
  then show ?case by simp
next
  case (Cons n names)
  from Cons.prems obtain kw parser1 where
    a: "add_argument parser (''-'' @ n) kw = Inr parser1" and
    r: "add_return_params helps types defaults names parser1 = Inr parser'"
    by (auto split: sum.splits)
  from Cons.IH [OF r] add_argument_result(1) [OF a] show ?case by simp
qed

lemma build_tool_skip:
  assumes "\<not> applicable version (func_name, tool_dict)"
  shows "build_tool version func_name tool_dict acc = Inr acc"
  using assms by (simp add: build_tool_def applicable_def)

lemma build_tool_names:
  assumes "build_tool version func_name tool_dict acc = Inr acc'"
    and "applicable version (func_name, tool_dict)"
  shows "map sp_name (fst acc') = map sp_name (fst acc) @ [func_name]"
proof -
  from assms(2) obtain rversion where
    rv: "get_last_version (sort (map fst tool_dict)) version = Some rversion"
    by (auto simp: applicable_def)
  with assms(1) obtain tool parser where
    t: "map_of tool_dict rversion = Some tool" and
    p: "add_signature_params (t_helps tool) (t_types tool) (t_defaults tool)
          (t_signature tool)
          \<lparr>sp_name = func_name, sp_help = ''version-'' @ rversion,
           sp_description = t_description tool, sp_arguments = []\<rparr> = Inr parser"
    by (auto simp: build_tool_def split: option.splits sum.splits)
  from add_signature_params_name [OF p] have n: "sp_name parser = func_name" by simp
  show ?thesis
  proof (cases "t_return_routine tool")
    case None
    with assms(1) rv t p have "acc' = (fst acc @ [parser], snd acc)"
      by (simp add: build_tool_def)
    with n show ?thesis by simp
  next
    case (Some rr)
    with assms(1) rv t p obtain parser' where
      q: "add_return_params (t_helps tool) (t_types tool) (t_defaults tool) (snd rr) parser
            = Inr parser'" and
      a: "acc' = (fst acc @ [parser'], AList.update func_name rr (snd acc))"
      by (auto simp: build_tool_def split: sum.splits)
    from add_return_params_name [OF q] n a show ?thesis by simp
  qed
qed

lemma build_tools_names:
  assumes "build_tools version tool_dicts acc = Inr acc'"
  shows "map sp_name (fst acc') =
           map sp_name (fst acc) @ map fst (filter (applicable version) tool_dicts)"
  using assms
proof (induction tool_dicts arbitrary: acc)
  case Nil
  then show ?case by simp
next
  case (Cons entry tool_dicts)
  obtain func_name tool_dict where e: "entry = (func_name, tool_dict)" by (cases entry)
  from Cons.prems e obtain acc1 where
    s: "build_tool version func_name tool_dict acc = Inr acc1" and
    r: "build_tools version tool_dicts acc1 = Inr acc'"
    by (auto split: sum.splits)
  show ?case
  proof (cases "applicable version (func_name, tool_dict)")
    case True
    from build_tool_names [OF s True] Cons.IH [OF r] True e show ?thesis by simp
  next
    case False
    from build_tool_skip [OF False, of acc] s have "acc1 = acc" by simp
    with Cons.IH [OF r] False e show ?thesis by simp
  qed
qed

lemma build_tools_filter:
  "build_tools version tool_dicts acc =
     build_tools version (filter (applicable version) tool_dicts) acc"
proof (induction tool_dicts arbitrary: acc)
  case Nil
  then show ?case by simp
next
  case (Cons entry tool_dicts)
  obtain func_name tool_dict where e: "entry = (func_name, tool_dict)" by (cases entry)
  show ?case
  proof (cases "applicable version (func_name, tool_dict)")
    case True
    with Cons.IH e show ?thesis by (simp split: sum.splits)
  next
    case False
    with Cons.IH e build_tool_skip [OF False] show ?thesis by simp
  qed
qed

text \<open>
  C6. The subcommands of the built parser are, in the order of \<open>_tool_dicts\<close>, the tool
  names for which the resolver finds a version at or before the active version. A tool
  name with no such version is left out without an error: the build gives what it gives
  on the table without that name.
\<close>

theorem module_main_build_subcommands:
  "(module_main_build m = Inr g \<longrightarrow>
      map sp_name (g_subparsers g) =
        map fst (filter (\<lambda>entry. get_last_version (sort (map fst (snd entry))) (m_version m)
                                   \<noteq> None)
                   (m_tool_dicts m)))
   \<and> module_main_build m =
       module_main_build
         (m\<lparr>m_tool_dicts :=
              filter (\<lambda>entry. get_last_version (sort (map fst (snd entry))) (m_version m)
                                \<noteq> None)
                (m_tool_dicts m)\<rparr>)"
proof -
  have ap: "(\<lambda>entry. get_last_version (sort (map fst (snd entry))) (m_version m) \<noteq> None) =
            applicable (m_version m)"
    by (simp add: applicable_def fun_eq_iff)
  have 1: "map sp_name (g_subparsers g) =
             map fst (filter (applicable (m_version m)) (m_tool_dicts m))"
    if "module_main_build m = Inr g"
  proof -
    from that obtain acc where
      b: "build_tools (m_version m) (m_tool_dicts m) ([], []) = Inr acc" and
      g: "g_subparsers g = fst acc"
      by (auto simp: module_main_build_def split: sum.splits)
    from build_tools_names [OF b] g show ?thesis by simp
  qed
  have 2: "module_main_build m =
       module_main_build
         (m\<lparr>m_tool_dicts := filter (applicable (m_version m)) (m_tool_dicts m)\<rparr>)"
    using build_tools_filter [of "m_version m" "m_tool_dicts m" "([], [])"]
    by (simp add: module_main_build_def split: sum.splits)
  from 1 2 show ?thesis unfolding ap by blast
qed


lemma module_vc_frame:
  assumes "module_vc m func = Inr m'"
  shows "m_tool_dicts m' = m_tool_dicts m" "m_version m' = m_version m"
    "m_module_display_version m' = m_module_display_version m"
proof -
  from assms obtain r where r: "rindex (fn_name func) CHR ''_'' = Inr r"
    by (auto simp: module_vc_def split: sum.splits)
  from assms have u: "update_module_vc
             (m\<lparr>m_method_dicts :=
                  AList.update (slice (fn_name func) 1 r)
                    (AList.update (drop (r + 1) (fn_name func)) func
                       (case map_of (m_method_dicts m) (slice (fn_name func) 1 r) of
                          None \<Rightarrow> [] | Some md \<Rightarrow> md))
                    (m_method_dicts m),
                m_attrs :=
                  AList.update (slice (fn_name func) 1 r)
                    (update_wrapper fresh_run_method func) (m_attrs m)\<rparr>)
             (slice (fn_name func) 1 r) (m_version m) = Inr m'"
    unfolding module_vc_unfold [OF r] .
  from update_module_vc_frame(2) [OF u] show "m_tool_dicts m' = m_tool_dicts m" by simp
  from update_module_vc_frame(3) [OF u] show "m_version m' = m_version m" by simp
  from update_module_vc_frame(4) [OF u]
  show "m_module_display_version m' = m_module_display_version m" by simp
qed

lemma copy_file_name:
  "rindex (fn_name copy_file_20200701) CHR ''_'' = Inr 10"
  "slice (fn_name copy_file_20200701) 1 10 = ''copy_file''"
  "drop (10 + 1) (fn_name copy_file_20200701) = ''20200701''"
  "slice (fn_name copy_file_20200701) (Suc 0) 10 = ''copy_file''"
  "drop 11 (fn_name copy_file_20200701) = ''20200701''"
  by (simp_all add: copy_file_20200701_def def_function_def rindex_def slice_def)

lemma pm_import_fields:
  "\<exists>m. pm_import default_version = Inr m
     \<and> m_tool_dicts m = [(''copy_file'', [(''20200701'', copy_file_tool)])]
     \<and> m_version m = default_version \<and> m_module_display_version m = None"
proof -
  let ?m0 = "blank_module\<lparr>m_method_dicts := [], m_tool_dicts := [],
               m_version := default_version, m_module_display_version := None\<rparr>"
  have m0: "register default_version blank_module None = Inr ?m0"
    by (rule register_result)
  obtain m1 where m1: "module_vc ?m0 some_method_20200601 = Inr m1"
    using module_vc_total [OF pm_names(1)] by blast
  obtain m2 where m2: "module_vc m1 some_method_20200721 = Inr m2"
    using module_vc_total [OF pm_names(2)] by blast
  obtain m3 where m3: "module_vc m2 other_method_20200801 = Inr m3"
    using module_vc_total [OF pm_names(3)] by blast
  obtain m4 where m4: "module_vc m3 copy_file_20200701 = Inr m4"
    using module_vc_total [OF pm_names(4)] by blast
  have t: "m_tool_dicts m4 = []"
    using module_vc_frame(1) [OF m1] module_vc_frame(1) [OF m2]
      module_vc_frame(1) [OF m3] module_vc_frame(1) [OF m4] by simp
  have v: "m_version m4 = default_version"
    using module_vc_frame(2) [OF m1] module_vc_frame(2) [OF m2]
      module_vc_frame(2) [OF m3] module_vc_frame(2) [OF m4] by simp
  have d: "m_module_display_version m4 = None"
    using module_vc_frame(3) [OF m1] module_vc_frame(3) [OF m2]
      module_vc_frame(3) [OF m3] module_vc_frame(3) [OF m4] by simp
  have m5: "module_vt m4 (Some ''File copy method'')
           [''srcfile'' \<mapsto> ''Input source file'', ''dstfile'' \<mapsto> ''Output source file'']
           Map.empty Map.empty None copy_file_20200701 =
         Inr (m4\<lparr>m_tool_dicts := [(''copy_file'', [(''20200701'', copy_file_tool)])]\<rparr>)"
    by (simp add: module_vt_def copy_file_name t copy_file_tool_def)
  have "pm_import default_version =
          Inr (m4\<lparr>m_tool_dicts := [(''copy_file'', [(''20200701'', copy_file_tool)])]\<rparr>)"
    by (simp add: pm_import_def and_then_def m0 m1 m2 m3 m4 m5)
  with v d show ?thesis by simp
qed

lemma pm_module_fields:
  "m_tool_dicts pm_module = [(''copy_file'', [(''20200701'', copy_file_tool)])]"
  "m_version pm_module = ''20201201''"
  "m_module_display_version pm_module = None"
  using pm_import_fields [of "''20201201''"] by (auto simp: pm_module_def)

lemma copy_file_resolves:
  "get_last_version [''20200701''] ''20201201'' = Some ''20200701''"
  "get_last_version [''20200701''] ''20200601'' = None"
  by code_simp+

lemma pm_module_main_build:
  "module_main_build pm_module =
     Inr \<lparr>g_description = [],
          g_subparsers =
            [\<lparr>sp_name = ''copy_file'', sp_help = ''version-20200701'',
              sp_description = Some ''File copy method'',
              sp_arguments =
                [(''-srcfile'',
                  \<lparr>kw_help = ''Input source file'', kw_default = None, kw_required = True,
                   kw_type = Some (TypeObj ''str''), kw_nargs = None\<rparr>),
                 (''-dstfile'',
                  \<lparr>kw_help = ''Output source file'', kw_default = None, kw_required = True,
                   kw_type = Some (TypeObj ''str''), kw_nargs = None\<rparr>)]\<rparr>],
          g_return_routines = []\<rparr>"
  by (simp add: module_main_build_def pm_module_fields build_tool_def copy_file_resolves
        copy_file_tool_def copy_file_20200701_def def_function_def str_param_def
        main_param_kwargs_def annotation_type_def add_argument_def)

theorem module_main_build_subcommands_witness:
  "map sp_name (g_subparsers (projr (module_main_build pm_module))) = [''copy_file''] \<and>
   module_main_build (pm_module\<lparr>m_version := ''20200601''\<rparr>) =
     Inr \<lparr>g_description = [], g_subparsers = [], g_return_routines = []\<rparr>"
proof -
  have ok: "module_main_build pm_module = Inr (projr (module_main_build pm_module))"
    by (simp add: pm_module_main_build)
  have f1: "filter (\<lambda>entry. get_last_version (sort (map fst (snd entry))) (m_version pm_module)
                              \<noteq> None) (m_tool_dicts pm_module) =
            [(''copy_file'', [(''20200701'', copy_file_tool)])]"
    by (simp add: pm_module_fields copy_file_resolves)
  have f2: "filter (\<lambda>entry. get_last_version (sort (map fst (snd entry)))
                              (m_version (pm_module\<lparr>m_version := ''20200601''\<rparr>)) \<noteq> None)
              (m_tool_dicts (pm_module\<lparr>m_version := ''20200601''\<rparr>)) = []"
    by (simp add: pm_module_fields copy_file_resolves)
  from module_main_build_subcommands
         [where m = pm_module and g = "projr (module_main_build pm_module)"] ok
  have "map sp_name (g_subparsers (projr (module_main_build pm_module))) =
          map fst (filter (\<lambda>entry. get_last_version (sort (map fst (snd entry)))
                                     (m_version pm_module) \<noteq> None)
                     (m_tool_dicts pm_module))"
    by blast
  then have 1: "map sp_name (g_subparsers (projr (module_main_build pm_module))) =
                  [''copy_file'']"
    by (simp only: f1) simp
  from module_main_build_subcommands [where m = "pm_module\<lparr>m_version := ''20200601''\<rparr>"]
  have "module_main_build (pm_module\<lparr>m_version := ''20200601''\<rparr>) =
        module_main_build
          (pm_module\<lparr>m_version := ''20200601''\<rparr>
             \<lparr>m_tool_dicts :=
                filter (\<lambda>entry. get_last_version (sort (map fst (snd entry)))
                           (m_version (pm_module\<lparr>m_version := ''20200601''\<rparr>)) \<noteq> None)
                  (m_tool_dicts (pm_module\<lparr>m_version := ''20200601''\<rparr>))\<rparr>)"
    by blast
  then have "module_main_build (pm_module\<lparr>m_version := ''20200601''\<rparr>) =
        module_main_build (pm_module\<lparr>m_version := ''20200601''\<rparr>\<lparr>m_tool_dicts := []\<rparr>)"
    by (simp only: f2)
  then have 2: "module_main_build (pm_module\<lparr>m_version := ''20200601''\<rparr>) =
     Inr \<lparr>g_description = [], g_subparsers = [], g_return_routines = []\<rparr>"
    by (simp add: module_main_build_def pm_module_fields)
  from 1 2 show ?thesis by simp
qed

section \<open>Required and optional flags\<close>





end
